theory Spec2Isabelle
  imports Main "HOL-Library.Word"
begin

unbundle bit_operations_syntax

section \<open>Data model of the transparent traffic capture layer (eio\_ttc.c)\<close>

text \<open>
  Sector numbers are \<open>sector_t\<close>, an unsigned 64-bit integer; the byte count of a bio
  (\<open>bi_size\<close>) is an \<open>unsigned int\<close>. Both wrap around, so they are words. Error codes
  are C \<open>int\<close>s that are only stored, compared with zero and handed on, modelled as \<open>int\<close>.
\<close>

type_synonym sector_t = "64 word"

text \<open>Linux errno values (from the kernel headers).\<close>

definition EIO :: int where "EIO = 5"
definition ENOMEM :: int where "ENOMEM = 12"
definition ENODEV :: int where "ENODEV = 19"
definition EINVAL :: int where "EINVAL = 22"
definition EOPNOTSUPP :: int where "EOPNOTSUPP = 95"

text \<open>
  Modelled from the spec: \<open>SECTOR_SHIFT\<close> and \<open>eio_to_sector\<close> are declared in eio.h, which
  is not among the sources. The spec counts I/O in sectors; a sector is 512 bytes, and
  \<open>eio_to_sector\<close> turns a byte count into a sector count by a right shift.
\<close>

definition SECTOR_SHIFT :: nat where "SECTOR_SHIFT = 9"

definition eio_to_sector :: "32 word \<Rightarrow> sector_t" where
  "eio_to_sector n = ucast (drop_bit SECTOR_SHIFT n)"

text \<open>
  A \<open>make_request_fn\<close> pointer is either the interception entry point
  \<open>eio_make_request_fn\<close> or some entry point of the underlying driver. A nullable pointer
  of that type is an \<open>option\<close>.
\<close>

datatype mfn_ptr = MFN_EIO | MFN_DRIVER nat

text \<open>
  \<open>struct block_device\<close>: \<open>bd_self\<close> is the identity of the structure (its address),
  \<open>bd_contains\<close> the identity of the whole-disk device that contains it (a whole disk
  contains itself), \<open>start_sect\<close> and \<open>nr_sects\<close> are \<open>bd_part->start_sect\<close> and
  \<open>bd_part->nr_sects\<close>. The whole disk also stands for its device number
  (\<open>bd_contains->bd_dev\<close>) and for its request queue (\<open>bd_disk->queue\<close>), which a
  partition shares with its disk.
\<close>

record block_device =
  bd_self :: nat
  bd_contains :: nat
  start_sect :: sector_t
  nr_sects :: sector_t

datatype dev_info_t = EIO_DEV_PARTITION | EIO_DEV_WHOLE_DISK

text \<open>
  \<open>struct cache_c\<close>, the fields this file reads or writes. \<open>disk_bdev\<close> is
  \<open>disk_dev->bdev\<close> and \<open>cache_bdev\<close> is \<open>cache_dev->bdev\<close>; \<open>eio_ttc_get_device\<close>
  stores them only after \<open>blkdev_get_by_path\<close> succeeded, so they are never NULL. \<open>fast_remove\<close>, \<open>do_clean\<close> and
  \<open>time_based_clean_interval\<close> are the members of \<open>sysctl_active\<close>. \<open>nr_ios\<close> and
  \<open>nr_dirty\<close> are 64-bit atomic counters, only read here.
\<close>

record cache_c =
  cache_name :: string
  disk_bdev :: block_device
  cache_bdev :: block_device
  dev_start_sect :: sector_t
  dev_end_sect :: sector_t
  dev_info :: dev_info_t
  origmfn :: "mfn_ptr option"
  mode :: "32 word"
  req_policy :: "32 word"
  policy_ops :: "nat option"
  cache_flags :: "32 word"
  nr_ios :: int
  nr_dirty :: int
  fast_remove :: "32 word"
  do_clean :: "32 word"
  time_based_clean_interval :: "32 word"
  is_clean_aged_sets_sched :: "32 word"

datatype req_op = REQ_OP_READ | REQ_OP_WRITE | REQ_OP_DISCARD | REQ_OP_FLUSH | REQ_OP_OTHER nat

datatype end_io_fn = END_eio_split_endio | END_eio_bio_end_empty_barrier | END_caller nat

text \<open>
  \<open>struct bio\<close>: \<open>bi_opf\<close> is kept as its two parts, the operation (\<open>bio_op\<close>) and the
  flags. The data segments (\<open>bi_io_vec\<close>) carry the payload; they decide neither the
  route nor the completion and are left out. \<open>bi_private\<close> is the address of the
  structure the completion function works on.
\<close>

record bio =
  bi_bdev :: block_device
  bi_sector :: sector_t
  bi_size :: "32 word"
  bi_op :: req_op
  bi_op_flags :: "32 word"
  bi_end_io :: end_io_fn
  bi_private :: "nat option"

text \<open>\<open>struct bio_container\<close>, the bookkeeping of an overlapping bio split per sector.\<close>

record bio_container =
  bc_bio :: bio
  bc_holdcount :: int
  bc_error :: int

text \<open>
  What a function does to the world outside its own data is recorded as a list of events,
  in program order: lock operations, calls of collaborators that live in other files, and
  completions of bios.
\<close>

datatype event =
    Down_read nat
  | Up_read nat
  | Down_write nat
  | Up_write nat
  | Spin_lock_irqsave nat
  | Spin_unlock_irqrestore nat
  | Bio_endio bio int
  | Call_eio_map nat bio
  | Call_origmfn "mfn_ptr option" bio
  | Kmalloc_bio_container nat bio_container
  | Kfree_bio_container nat
  | Bio_put bio
  | Msleep
  | Schedule_timeout
  | Call_eio_clean_all nat
  | Call_eio_policy_free nat "nat option"
  | Call_eio_stop_async_tasks nat
  | Call_eio_start_clean_thread nat
  | Schedule_delayed_work nat
  | Call_eio_free_wb_resources nat
  | Call_eio_procfs_dtr nat
  | Call_eio_procfs_ctr nat
  | Call_eio_policy_lru_pushblks "nat option"
  | Complete_event
  | Mempool_free_io
  | Call_notify nat int nat

text \<open>
  The registry: \<open>eio_ttc_list\<close> is the array of shard lists (a list holds the addresses
  of the cache objects linked into it, in list order), \<open>heap\<close> gives the cache object at an
  address, \<open>make_request_fn\<close> is the entry point of each disk's request queue, and \<open>trace\<close>
  collects the events so far.
\<close>

record ttc_state =
  heap :: "nat \<Rightarrow> cache_c"
  eio_ttc_list :: "nat \<Rightarrow> nat list"
  make_request_fn :: "nat \<Rightarrow> mfn_ptr option"
  trace :: "event list"

text \<open>
  The constants and macros this file takes from eio.h, eio\_ttc.h and the kernel headers,
  none of them among the sources; they are parameters. \<open>EIO_HASH_BDEV\<close> maps a disk to
  its shard, \<open>CACHE_FAILED_IS_SET\<close> and \<open>CACHE_DEGRADED_IS_SET\<close> are the macros that
  test a cache object, the others are numbers.
\<close>

record ttc_config =
  EIO_HASHTBL_SIZE :: nat
  EIO_HASH_BDEV :: "nat \<Rightarrow> nat"
  WRITE_FLUSH :: "32 word"
  CACHE_MODE_WB :: "32 word"
  CACHE_FLAGS_SHUTDOWN_INPROG :: "32 word"
  CACHE_FLAGS_MOD_INPROG :: "32 word"
  CACHE_FAILED_IS_SET :: "cache_c \<Rightarrow> bool"
  CACHE_DEGRADED_IS_SET :: "cache_c \<Rightarrow> bool"
  EIO_CLEAN_START :: "32 word"
  EIO_CLEAN_KEEP :: "32 word"
  FINISH_NRDIRTY_RETRY_COUNT :: int

text \<open>
  The collaborators of the I/O path: \<open>eio_map\<close> is the cache engine's entry (it returns a
  code and may change the bio it was handed); the other three say whether an allocation in
  \<open>eio_overlap_split_bio\<close> succeeds: the array of sub-bio pointers, the container (its
  address when it does) and the \<open>i\<close>-th sub-bio.
\<close>

record io_env =
  eio_map :: "cache_c \<Rightarrow> bio \<Rightarrow> int \<times> bio"
  kmalloc_bioptr :: "bio \<Rightarrow> bool"
  kmalloc_bc :: "bio \<Rightarrow> nat option"
  bio_alloc :: "bio \<Rightarrow> nat \<Rightarrow> bool"

section \<open>The routing decision: eio\_make\_request\_fn\<close>

text \<open>
  \<open>hdd_make_request\<close>: the queue of the bio's device exists in this model, and the kernel
  this file is written for (it uses \<open>bio_op\<close>) has entry points that always submit, so the
  call of the original entry point is all that happens. The pointer called is recorded as
  it is, \<open>None\<close> for a call through NULL.
\<close>

definition hdd_make_request :: "mfn_ptr option \<Rightarrow> bio \<Rightarrow> event list" where
  "hdd_make_request f b = [Call_origmfn f b]"

text \<open>The last sector of a bio, as the source computes it (it wraps for an empty bio at 0).\<close>

definition bio_last_sector :: "bio \<Rightarrow> sector_t" where
  "bio_last_sector b = bi_sector b + eio_to_sector (bi_size b) - 1"

text \<open>
  The \<open>list_for_each_entry\<close> loop of \<open>eio_make_request_fn\<close>. It returns \<open>dmc\<close>,
  \<open>origmfn\<close> and \<open>overlap\<close> as they are when the loop is left.
\<close>

fun eio_mfn_scan ::
  "(nat \<Rightarrow> cache_c) \<Rightarrow> bio \<Rightarrow> mfn_ptr option \<Rightarrow> nat list \<Rightarrow> nat option \<times> mfn_ptr option \<times> bool"
where
  "eio_mfn_scan h b om [] = (None, om, False)"
| "eio_mfn_scan h b om (a # as) =
     (let dmc1 = h a in
      if bd_contains (disk_bdev dmc1) \<noteq> bd_contains (bi_bdev b) then eio_mfn_scan h b om as
      else if dev_info dmc1 = EIO_DEV_WHOLE_DISK then (Some a, om, False)
      else
        let om1 = (if om = None then origmfn dmc1 else om) in
        if dev_start_sect dmc1 \<le> bi_sector b \<and> bio_last_sector b \<le> dev_end_sect dmc1
        then (Some a, om1, False)
        else if (dev_start_sect dmc1 \<le> bi_sector b \<and> bi_sector b \<le> dev_end_sect dmc1) \<or>
                (dev_start_sect dmc1 \<le> bio_last_sector b \<and> bio_last_sector b \<le> dev_end_sect dmc1)
        then (None, om1, True)
        else eio_mfn_scan h b om1 as)"

text \<open>
  The three tests of the loop, by name: the binding at \<open>a\<close> is on the bio's disk; the bio
  lies within the binding's range; the first or the last sector of the bio lies within it.
\<close>

definition same_disk :: "(nat \<Rightarrow> cache_c) \<Rightarrow> bio \<Rightarrow> nat \<Rightarrow> bool" where
  "same_disk h b a \<longleftrightarrow> bd_contains (disk_bdev (h a)) = bd_contains (bi_bdev b)"

definition bio_within :: "(nat \<Rightarrow> cache_c) \<Rightarrow> bio \<Rightarrow> nat \<Rightarrow> bool" where
  "bio_within h b a \<longleftrightarrow>
     dev_start_sect (h a) \<le> bi_sector b \<and> bio_last_sector b \<le> dev_end_sect (h a)"

definition bio_end_within :: "(nat \<Rightarrow> cache_c) \<Rightarrow> bio \<Rightarrow> nat \<Rightarrow> bool" where
  "bio_end_within h b a \<longleftrightarrow>
     (dev_start_sect (h a) \<le> bi_sector b \<and> bi_sector b \<le> dev_end_sect (h a)) \<or>
     (dev_start_sect (h a) \<le> bio_last_sector b \<and> bio_last_sector b \<le> dev_end_sect (h a))"

text \<open>\<open>eio_split_new_bio\<close>: the sub-bio for sector \<open>snum\<close> (when \<open>bio_alloc\<close> succeeded).\<close>

definition eio_split_new_bio :: "bio \<Rightarrow> nat \<Rightarrow> sector_t \<Rightarrow> bio" where
  "eio_split_new_bio b bc snum =
     \<lparr>bi_bdev = bi_bdev b, bi_sector = snum, bi_size = push_bit SECTOR_SHIFT 1,
      bi_op = bi_op b, bi_op_flags = bi_op_flags b,
      bi_end_io = END_eio_split_endio, bi_private = Some bc\<rparr>"

text \<open>
  The first loop of \<open>eio_overlap_split_bio\<close>: it builds the sub-bios for indices
  \<open>i, i+1, ...\<close> (\<open>k\<close> of them are left to build) and stops at the first failed allocation.
\<close>

fun split_new_bios :: "io_env \<Rightarrow> bio \<Rightarrow> nat \<Rightarrow> nat \<Rightarrow> nat \<Rightarrow> sector_t \<Rightarrow> bio list" where
  "split_new_bios E b bc i 0 snum = []"
| "split_new_bios E b bc i (Suc k) snum =
     (if bio_alloc E b i then eio_split_new_bio b bc snum # split_new_bios E b bc (Suc i) k (snum + 1)
      else [])"

text \<open>All sub-calls returned: their events in order; one did not: neither does the caller.\<close>

fun concat_results :: "(event list \<times> bio) option list \<Rightarrow> event list option" where
  "concat_results [] = Some []"
| "concat_results (None # rs) = None"
| "concat_results (Some (es, b) # rs) =
     (case concat_results rs of None \<Rightarrow> None | Some es' \<Rightarrow> Some (es @ es'))"

text \<open>
  \<open>eio_make_request_fn\<close> and \<open>eio_overlap_split_bio\<close> call each other, and
  \<open>eio_make_request_fn\<close> restarts itself (\<open>goto re_lookup\<close>). The first argument bounds the
  number of nested entries into \<open>eio_make_request_fn\<close>; \<open>None\<close> means the bound was
  reached. The result is the list of events and the bio as the caller finds it afterwards.
\<close>

function
  eio_make_request_fn ::
    "nat \<Rightarrow> ttc_config \<Rightarrow> io_env \<Rightarrow> ttc_state \<Rightarrow> nat \<Rightarrow> bio \<Rightarrow> (event list \<times> bio) option" and
  eio_overlap_split_bio ::
    "nat \<Rightarrow> ttc_config \<Rightarrow> io_env \<Rightarrow> ttc_state \<Rightarrow> nat \<Rightarrow> bio \<Rightarrow> event list option"
where
  "eio_make_request_fn 0 C E s q b = None"
| "eio_make_request_fn (Suc n) C E s q b =
     (let index = EIO_HASH_BDEV C (bd_contains (bi_bdev b)) in
      case eio_mfn_scan (heap s) b None (eio_ttc_list s index) of
        (dmc, om, overlap) \<Rightarrow>
          if overlap then
            (if bi_op b = REQ_OP_DISCARD
             then Some ([Down_read index, Up_read index, Bio_endio b (- EOPNOTSUPP)], b)
             else
               (case eio_overlap_split_bio n C E s q b of
                  None \<Rightarrow> None
                | Some es \<Rightarrow> Some ([Down_read index, Up_read index] @ es, b)))
          else
            (case dmc of
               Some a \<Rightarrow>
                 (let b1 = (if bi_sector b \<noteq> 0
                            then b\<lparr>bi_sector := bi_sector b - dev_start_sect (heap s a)\<rparr>
                            else b) in
                  case eio_map E (heap s a) b1 of
                    (ret, b2) \<Rightarrow>
                      Some ([Down_read index, Call_eio_map a b1, Up_read index],
                            if ret \<noteq> 0
                            then b2\<lparr>bi_sector := bi_sector b2 + dev_start_sect (heap s a)\<rparr>
                            else b2))
             | None \<Rightarrow>
                 (let om1 = (case om of None \<Rightarrow> make_request_fn s q | Some f \<Rightarrow> Some f) in
                  if om1 = Some MFN_EIO then
                    (case eio_make_request_fn n C E s q b of
                       None \<Rightarrow> None
                     | Some (es, b') \<Rightarrow> Some ([Down_read index, Up_read index] @ es, b'))
                  else Some ([Down_read index, Up_read index] @ hdd_make_request om1 b, b))))"
| "eio_overlap_split_bio n C E s q b =
     (let nbios = unat (drop_bit SECTOR_SHIFT (bi_size b)) in
      if \<not> kmalloc_bioptr E b then Some [Bio_endio b (- ENOMEM)]
      else
        (case kmalloc_bc E b of
           None \<Rightarrow> Some [Bio_endio b (- ENOMEM)]
         | Some bc \<Rightarrow>
             (let container = \<lparr>bc_bio = b, bc_holdcount = int nbios, bc_error = 0\<rparr>;
                  bioptr = split_new_bios E b bc 0 nbios (bi_sector b) in
              if length bioptr < nbios
              then Some (Kmalloc_bio_container bc container # map Bio_put (rev bioptr) @
                         [Bio_endio b (- ENOMEM), Kfree_bio_container bc])
              else
                (case concat_results (map (eio_make_request_fn n C E s q) bioptr) of
                   None \<Rightarrow> None
                 | Some es \<Rightarrow> Some (Kmalloc_bio_container bc container # es)))))"
  by pat_completeness auto
termination
  by (relation "measure (\<lambda>x. case x of Inl (n, _) \<Rightarrow> 2 * n | Inr (n, _) \<Rightarrow> 2 * n + 1)") auto

section \<open>Activation and deactivation of a binding\<close>

text \<open>
  The collaborators of the lifecycle code. \<open>while_asleep\<close> is what the other threads have
  made of a cache object when a sleeping call (\<open>schedule_timeout\<close>) returns,
  \<open>eio_clean_all\<close> what the cleaner (and the other threads meanwhile) have made of it when
  the call returns. Only the fields other threads write are taken from them: the two
  counters, the flags and the \<open>fast_remove\<close> switch.
\<close>

record life_env =
  while_asleep :: "cache_c \<Rightarrow> cache_c"
  eio_clean_all :: "cache_c \<Rightarrow> cache_c"

definition volatile_from :: "cache_c \<Rightarrow> cache_c \<Rightarrow> cache_c" where
  "volatile_from d d' =
     d\<lparr>nr_ios := nr_ios d', nr_dirty := nr_dirty d', cache_flags := cache_flags d',
       fast_remove := fast_remove d'\<rparr>"

text \<open>
  \<open>eio_issue_empty_barrier_flush\<close> for the source device (\<open>device == EIO_HDD_DEVICE\<close>):
  an empty bio is handed to the original entry point.
\<close>

definition eio_issue_empty_barrier_flush ::
  "block_device \<Rightarrow> nat option \<Rightarrow> mfn_ptr option \<Rightarrow> req_op \<Rightarrow> 32 word \<Rightarrow> event list" where
  "eio_issue_empty_barrier_flush bdev orig_bio f op op_flags =
     hdd_make_request f
       \<lparr>bi_bdev = bdev, bi_sector = 0, bi_size = 0, bi_op = op, bi_op_flags = op_flags,
        bi_end_io = END_eio_bio_end_empty_barrier, bi_private = orig_bio\<rparr>"

text \<open>
  The \<open>list_for_each_entry\<close> loop of \<open>eio_ttc_activate\<close>: \<open>error\<close> and \<open>origmfn\<close> as
  they are when the loop is left. The loop is left at the first binding of the same disk.
\<close>

fun activate_scan ::
  "(nat \<Rightarrow> cache_c) \<Rightarrow> block_device \<Rightarrow> bool \<Rightarrow> nat list \<Rightarrow> int \<times> mfn_ptr option" where
  "activate_scan h bdev wholedisk [] = (0, None)"
| "activate_scan h bdev wholedisk (a # as) =
     (let dmc1 = h a in
      if bd_contains (disk_bdev dmc1) \<noteq> bd_contains bdev then activate_scan h bdev wholedisk as
      else if wholedisk \<or> dev_info dmc1 = EIO_DEV_WHOLE_DISK \<or>
              bd_self (disk_bdev dmc1) = bd_self bdev
      then (- EINVAL, None)
      else (0, origmfn dmc1))"

text \<open>
  \<open>eio_ttc_activate\<close> for the cache object at address \<open>a\<close>. The request queue \<open>rq\<close> is that
  of the disk. The test for a NULL \<open>bdev\<close> never fires (see \<open>cache_c\<close>).
\<close>

definition eio_ttc_activate :: "ttc_config \<Rightarrow> ttc_state \<Rightarrow> nat \<Rightarrow> int \<times> ttc_state" where
  "eio_ttc_activate C s a =
     (let bdev = disk_bdev (heap s a);
          rq = bd_contains bdev;
          wholedisk = (bd_self bdev = bd_contains bdev);
          h1 = (heap s)(a := (heap s a)
                  \<lparr>dev_start_sect := start_sect bdev,
                   dev_end_sect := start_sect bdev + nr_sects bdev - 1\<rparr>);
          index = EIO_HASH_BDEV C (bd_contains bdev)
      in case activate_scan h1 bdev wholedisk (eio_ttc_list s index) of
           (error, om) \<Rightarrow>
             if error \<noteq> 0
             then (error, s\<lparr>heap := h1, trace := trace s @ [Down_write index, Up_write index]\<rparr>)
             else
               (let saved = (case om of Some f \<Rightarrow> Some f | None \<Rightarrow> make_request_fn s rq);
                    h2 = h1(a := (h1 a)
                           \<lparr>origmfn := saved,
                            dev_info := (case om of
                                           Some f \<Rightarrow> EIO_DEV_PARTITION
                                         | None \<Rightarrow> if wholedisk then EIO_DEV_WHOLE_DISK
                                                   else EIO_DEV_PARTITION)\<rparr>)
                in (0, s\<lparr>heap := h2,
                         make_request_fn :=
                           (case om of
                              Some f \<Rightarrow> make_request_fn s
                            | None \<Rightarrow> (make_request_fn s)(rq := Some MFN_EIO)),
                         eio_ttc_list := (eio_ttc_list s)(index := eio_ttc_list s index @ [a]),
                         trace := trace s @
                           [Down_write index, Msleep] @
                           eio_issue_empty_barrier_flush bdev None saved REQ_OP_FLUSH (WRITE_FLUSH C) @
                           [Up_write index]\<rparr>)))"

text \<open>
  A loop \<open>while (atomic64_read(&dmc->nr_ios) != 0) schedule_timeout(...)\<close>. The first
  argument bounds the number of times the counter is read; \<open>None\<close> means the bound was
  reached. The result is the cache object and the number of sleeps.
\<close>

fun wait_nr_ios :: "nat \<Rightarrow> life_env \<Rightarrow> cache_c \<Rightarrow> (cache_c \<times> nat) option" where
  "wait_nr_ios 0 L d = None"
| "wait_nr_ios (Suc k) L d =
     (if nr_ios d = 0 then Some (d, 0)
      else (case wait_nr_ios k L (volatile_from d (while_asleep L d)) of
              None \<Rightarrow> None
            | Some (d', n) \<Rightarrow> Some (d', Suc n)))"

text \<open>
  The \<open>do ... while\<close> loop of \<open>eio_finish_nrdirty\<close>; the first argument bounds the number
  of rounds. The result is \<open>ret\<close>, the cache object and the number of calls of the cleaner.
\<close>

fun finish_nrdirty_loop ::
  "nat \<Rightarrow> ttc_config \<Rightarrow> life_env \<Rightarrow> cache_c \<Rightarrow> (int \<times> cache_c \<times> nat) option" where
  "finish_nrdirty_loop 0 C L d = None"
| "finish_nrdirty_loop (Suc k) C L d =
     (if CACHE_FAILED_IS_SET C d then Some (- ENODEV, d, 0)
      else
        (let cleaned = (fast_remove d = 0);
             d1 = (if cleaned then volatile_from d (eio_clean_all L d) else d) in
         if fast_remove d1 = 0 \<and> nr_dirty d1 > 0 \<and>
            cache_flags d1 AND CACHE_FLAGS_SHUTDOWN_INPROG C = 0
         then (case finish_nrdirty_loop k C L d1 of
                 None \<Rightarrow> None
               | Some (ret, d2, n) \<Rightarrow> Some (ret, d2, (if cleaned then Suc n else n)))
         else Some (0, d1, (if cleaned then 1 else 0))))"

text \<open>\<open>eio_finish_nrdirty\<close>; \<open>retry_count\<close> is set once and never counted down.\<close>

definition eio_finish_nrdirty ::
  "nat \<Rightarrow> ttc_config \<Rightarrow> life_env \<Rightarrow> ttc_state \<Rightarrow> nat \<Rightarrow> (int \<times> ttc_state) option" where
  "eio_finish_nrdirty fuel C L s a =
     (let retry_count = FINISH_NRDIRTY_RETRY_COUNT C;
          index = EIO_HASH_BDEV C (bd_contains (disk_bdev (heap s a)))
      in case wait_nr_ios fuel L (heap s a) of
           None \<Rightarrow> None
         | Some (d0, sleeps) \<Rightarrow>
             (let d1 = d0\<lparr>do_clean := do_clean d0 OR EIO_CLEAN_KEEP C OR EIO_CLEAN_START C\<rparr> in
              case finish_nrdirty_loop fuel C L d1 of
                None \<Rightarrow> None
              | Some (ret0, d2, cleans) \<Rightarrow>
                  (let d3 = d2\<lparr>do_clean := do_clean d2 AND NOT (EIO_CLEAN_START C)\<rparr>;
                       ret = (if (cache_flags d3 AND CACHE_FLAGS_SHUTDOWN_INPROG C \<noteq> 0 \<or>
                                  retry_count = 0) \<and> nr_dirty d3 > 0
                              then - EINVAL else ret0)
                   in Some (ret, s\<lparr>heap := (heap s)(a := d3),
                                   trace := trace s @ [Down_write index] @
                                     replicate sleeps Schedule_timeout @ [Up_write index] @
                                     replicate cleans (Call_eio_clean_all a)\<rparr>))))"

text \<open>
  The part of \<open>eio_ttc_deactivate\<close> from the label \<open>deactivate\<close> on: under the write lock
  the entry point is switched back unless another partition of the disk is still cached,
  and the binding is unlinked; then the call waits for the in-flight I/O.
\<close>

definition found_partitions :: "ttc_state \<Rightarrow> nat \<Rightarrow> nat list \<Rightarrow> bool" where
  "found_partitions s a l =
     (dev_info (heap s a) \<noteq> EIO_DEV_WHOLE_DISK \<and>
      list_ex (\<lambda>a1. a1 \<noteq> a \<and>
                 bd_contains (disk_bdev (heap s a1)) = bd_contains (disk_bdev (heap s a))) l)"

definition ttc_deactivate_unlink ::
  "nat \<Rightarrow> ttc_config \<Rightarrow> life_env \<Rightarrow> ttc_state \<Rightarrow> nat \<Rightarrow> int \<Rightarrow> (int \<times> ttc_state) option" where
  "ttc_deactivate_unlink fuel C L s a ret =
     (let dmc = heap s a;
          rq = bd_contains (disk_bdev dmc);
          index = EIO_HASH_BDEV C (bd_contains (disk_bdev dmc));
          found = found_partitions s a (eio_ttc_list s index);
          mrf = (if dev_info dmc = EIO_DEV_WHOLE_DISK \<or> \<not> found
                 then (make_request_fn s)(rq := origmfn dmc) else make_request_fn s);
          l = (eio_ttc_list s)(index := remove1 a (eio_ttc_list s index))
      in case wait_nr_ios fuel L dmc of
           None \<Rightarrow> None
         | Some (d', sleeps) \<Rightarrow>
             Some (ret, s\<lparr>heap := (heap s)(a := d'), make_request_fn := mrf, eio_ttc_list := l,
                          trace := trace s @ [Down_write index, Up_write index] @
                            replicate sleeps Schedule_timeout\<rparr>))"

definition eio_ttc_deactivate ::
  "nat \<Rightarrow> ttc_config \<Rightarrow> life_env \<Rightarrow> ttc_state \<Rightarrow> nat \<Rightarrow> bool \<Rightarrow> (int \<times> ttc_state) option" where
  "eio_ttc_deactivate fuel C L s a force =
     (if force then ttc_deactivate_unlink fuel C L s a 0
      else if mode (heap s a) = CACHE_MODE_WB C then
        (if \<not> CACHE_FAILED_IS_SET C (heap s a) then
           (case eio_finish_nrdirty fuel C L s a of
              None \<Rightarrow> None
            | Some (ret, s1) \<Rightarrow>
                if ret \<noteq> 0 then Some (ret, s1) else ttc_deactivate_unlink fuel C L s1 a ret)
         else ttc_deactivate_unlink fuel C L s a 0)
      else ttc_deactivate_unlink fuel C L s a 0)"

text \<open>
  Sequences of activations and deactivations. An activation is of a cache object that is
  not linked into its shard list (the caller has just built it); a deactivation is of one
  that is (the caller has looked it up). \<open>run_ops\<close> is \<open>None\<close> when a deactivation did not
  return within the bound.
\<close>

datatype ttc_op = Activate nat | Deactivate nat bool

definition shard_of :: "ttc_config \<Rightarrow> ttc_state \<Rightarrow> nat \<Rightarrow> nat" where
  "shard_of C s a = EIO_HASH_BDEV C (bd_contains (disk_bdev (heap s a)))"

fun run_ops :: "nat \<Rightarrow> ttc_config \<Rightarrow> life_env \<Rightarrow> ttc_state \<Rightarrow> ttc_op list \<Rightarrow> ttc_state option" where
  "run_ops fuel C L s [] = Some s"
| "run_ops fuel C L s (Activate a # ops) = run_ops fuel C L (snd (eio_ttc_activate C s a)) ops"
| "run_ops fuel C L s (Deactivate a force # ops) =
     (case eio_ttc_deactivate fuel C L s a force of
        None \<Rightarrow> None
      | Some (ret, s') \<Rightarrow> run_ops fuel C L s' ops)"

fun ops_valid :: "nat \<Rightarrow> ttc_config \<Rightarrow> life_env \<Rightarrow> ttc_state \<Rightarrow> ttc_op list \<Rightarrow> bool" where
  "ops_valid fuel C L s [] = True"
| "ops_valid fuel C L s (Activate a # ops) =
     (a \<notin> set (eio_ttc_list s (shard_of C s a)) \<and>
      ops_valid fuel C L (snd (eio_ttc_activate C s a)) ops)"
| "ops_valid fuel C L s (Deactivate a force # ops) =
     (a \<in> set (eio_ttc_list s (shard_of C s a)) \<and>
      (case eio_ttc_deactivate fuel C L s a force of
         None \<Rightarrow> True
       | Some (ret, s') \<Rightarrow> ops_valid fuel C L s' ops))"

text \<open>The bindings of disk \<open>D\<close> in the registry, in list order.\<close>

definition bindings_of :: "ttc_config \<Rightarrow> ttc_state \<Rightarrow> nat \<Rightarrow> nat list" where
  "bindings_of C s D =
     filter (\<lambda>a. bd_contains (disk_bdev (heap s a)) = D) (eio_ttc_list s (EIO_HASH_BDEV C D))"

text \<open>
  The invariant of the registry for disk \<open>D\<close> whose driver's entry point is
  \<open>MFN_DRIVER k\<close>: the shard list has no address twice; the queue's entry point is the
  driver's while no binding of \<open>D\<close> is linked and the interception otherwise; every linked
  binding of \<open>D\<close> has saved the driver's entry point; a whole-disk binding is alone.
\<close>

definition ttc_inv :: "ttc_config \<Rightarrow> nat \<Rightarrow> nat \<Rightarrow> ttc_state \<Rightarrow> bool" where
  "ttc_inv C D k s \<longleftrightarrow>
     distinct (eio_ttc_list s (EIO_HASH_BDEV C D)) \<and>
     (bindings_of C s D = [] \<longrightarrow> make_request_fn s D = Some (MFN_DRIVER k)) \<and>
     (bindings_of C s D \<noteq> [] \<longrightarrow> make_request_fn s D = Some MFN_EIO) \<and>
     (\<forall>a \<in> set (bindings_of C s D).
        origmfn (heap s a) = Some (MFN_DRIVER k) \<and>
        (dev_info (heap s a) = EIO_DEV_WHOLE_DISK \<longrightarrow> bindings_of C s D = [a]))"


section \<open>Lookup by name and the checks before cache creation\<close>

definition EEXIST :: int where "EEXIST = 17"

text \<open>The inner loop of \<open>eio_cache_lookup\<close>: the first cache object of a list with the name.\<close>

fun lookup_in_list :: "(nat \<Rightarrow> cache_c) \<Rightarrow> string \<Rightarrow> nat list \<Rightarrow> nat option" where
  "lookup_in_list h name [] = None"
| "lookup_in_list h name (a # as) =
     (if cache_name (h a) = name then Some a else lookup_in_list h name as)"

text \<open>The outer loop of \<open>eio_cache_lookup\<close> over the shards, with its lock operations.\<close>

fun lookup_in_shards :: "ttc_state \<Rightarrow> string \<Rightarrow> nat list \<Rightarrow> nat option \<times> event list" where
  "lookup_in_shards s name [] = (None, [])"
| "lookup_in_shards s name (i # is) =
     (case lookup_in_list (heap s) name (eio_ttc_list s i) of
        Some a \<Rightarrow> (Some a, [Down_read i, Up_read i])
      | None \<Rightarrow>
          (case lookup_in_shards s name is of
             (r, es) \<Rightarrow> (r, Down_read i # Up_read i # es)))"

definition eio_cache_lookup :: "ttc_config \<Rightarrow> ttc_state \<Rightarrow> string \<Rightarrow> nat option \<times> event list" where
  "eio_cache_lookup C s name = lookup_in_shards s name [0..<EIO_HASHTBL_SIZE C]"

text \<open>
  The loop of \<open>eio_do_preliminary_checks\<close>: unlike the loop of \<open>eio_ttc_activate\<close> it goes
  on after a binding of the same disk that does not conflict.
\<close>

fun preliminary_scan :: "(nat \<Rightarrow> cache_c) \<Rightarrow> block_device \<Rightarrow> bool \<Rightarrow> nat list \<Rightarrow> int" where
  "preliminary_scan h bdev wholedisk [] = 0"
| "preliminary_scan h bdev wholedisk (a # as) =
     (let dmc1 = h a in
      if bd_contains (disk_bdev dmc1) \<noteq> bd_contains bdev then preliminary_scan h bdev wholedisk as
      else if wholedisk \<or> dev_info dmc1 = EIO_DEV_WHOLE_DISK \<or>
              bd_self (disk_bdev dmc1) = bd_self bdev
      then - EINVAL
      else preliminary_scan h bdev wholedisk as)"

definition eio_do_preliminary_checks :: "ttc_config \<Rightarrow> ttc_state \<Rightarrow> nat \<Rightarrow> int \<times> event list" where
  "eio_do_preliminary_checks C s a =
     (let dmc = heap s a; bdev = disk_bdev dmc; ssd_bdev = cache_bdev dmc in
      if bd_contains bdev = bd_contains ssd_bdev then (- EINVAL, [])
      else
        (case eio_cache_lookup C s (cache_name dmc) of
           (Some a', es) \<Rightarrow> (- EEXIST, es)
         | (None, es) \<Rightarrow>
             (let wholedisk = (bd_self bdev = bd_contains bdev);
                  index = EIO_HASH_BDEV C (bd_contains bdev)
              in (preliminary_scan (heap s) bdev wholedisk (eio_ttc_list s index),
                  es @ [Down_read index, Up_read index]))))"

section \<open>The completion tracker of the dispatch engine\<close>

text \<open>
  \<open>struct eio_context\<close>: \<open>io_count\<close> is the atomic reference count, \<open>io_error\<close> the error,
  \<open>io_event\<close> says whether \<open>event\<close> points to a completion (synchronous mode) or is NULL
  (asynchronous mode), \<open>io_callback\<close> and \<open>io_context\<close> are the notify function and its
  opaque argument.
\<close>

record eio_context =
  io_count :: int
  io_error :: int
  io_event :: bool
  io_callback :: nat
  io_context :: nat

text \<open>
  \<open>eio_dec_count\<close>: the tracker afterwards and the completion signal, if it fired. The
  store of the error and the decrement are taken as one step.
\<close>

definition eio_dec_count :: "eio_context \<Rightarrow> int \<Rightarrow> eio_context \<times> event list" where
  "eio_dec_count io error =
     (let io1 = (if error \<noteq> 0 then io\<lparr>io_error := error\<rparr> else io);
          io2 = io1\<lparr>io_count := io_count io1 - 1\<rparr>
      in if io_count io2 = 0
         then (io2, if io_event io2 then [Complete_event]
                    else [Mempool_free_io, Call_notify (io_callback io2) (io_error io2) (io_context io2)])
         else (io2, []))"

text \<open>
  What happens to one tracker, step by step: \<open>Issue\<close> is the \<open>atomic_inc\<close> with which
  \<open>eio_dispatch_io\<close> and \<open>eio_dispatch_io_pages\<close> announce a bio, and \<open>do_unaligned_io\<close> an
  unaligned block, before they submit it; \<open>Endio error\<close> is its completion (\<open>eio_endio\<close>
  for a bio, \<open>end_unaligned_free\<close> for an unaligned block once its read, and for a write
  its write-back, is over), which calls \<open>eio_dec_count\<close> with the error; \<open>Drop_extra\<close> is
  the call \<open>eio_dec_count(io, 0)\<close> with which \<open>eio_sync_io\<close> and \<open>eio_async_io\<close> give up
  the reference they started with.
\<close>

datatype io_step = Issue | Endio int | Drop_extra

fun io_apply :: "eio_context \<Rightarrow> io_step \<Rightarrow> eio_context \<times> event list" where
  "io_apply io Issue = (io\<lparr>io_count := io_count io + 1\<rparr>, [])"
| "io_apply io (Endio error) = eio_dec_count io error"
| "io_apply io Drop_extra = eio_dec_count io 0"

fun io_run :: "eio_context \<Rightarrow> io_step list \<Rightarrow> eio_context \<times> event list" where
  "io_run io [] = (io, [])"
| "io_run io (x # xs) =
     (case io_apply io x of
        (io1, es1) \<Rightarrow> (case io_run io1 xs of (io2, es2) \<Rightarrow> (io2, es1 @ es2)))"

text \<open>
  \<open>eio_sync_io\<close>. The dispatch function and the device are outside this model: \<open>ret\<close> is
  what the dispatch function returns, \<open>during\<close> are the steps on the tracker while it runs
  (the transfers it issues and the completions that arrive meanwhile), \<open>later\<close> are the
  errors of the completions that arrive after it has returned, in their order. The call
  returns (\<open>Some\<close>) when the wait it ends with is over: after a failed dispatch once the
  count is back at 1, otherwise once the completion was signalled.
\<close>

definition eio_sync_io :: "int \<Rightarrow> io_step list \<Rightarrow> int list \<Rightarrow> (int \<times> event list) option" where
  "eio_sync_io ret during later =
     (let io = \<lparr>io_count = 1, io_error = 0, io_event = True, io_callback = 0, io_context = 0\<rparr>
      in case io_run io during of
           (io1, es1) \<Rightarrow>
             if ret \<noteq> 0 then
               (case io_run io1 (map Endio later) of
                  (io2, es2) \<Rightarrow> if io_count io2 = 1 then Some (ret, es1 @ es2) else None)
             else
               (case io_run io1 (Drop_extra # map Endio later) of
                  (io2, es2) \<Rightarrow>
                    if Complete_event \<in> set (es1 @ es2)
                    then Some (if io_error io2 \<noteq> 0 then io_error io2 else ret, es1 @ es2)
                    else None))"

text \<open>
  \<open>eio_async_io\<close>, with the notify function and its argument from the request. \<open>alloc\<close>
  says whether \<open>mempool_alloc\<close> gave a tracker. The call returns without waiting unless the
  dispatch failed; the events include those of the completions that arrive later.
\<close>

definition eio_async_io ::
  "bool \<Rightarrow> nat \<Rightarrow> nat \<Rightarrow> int \<Rightarrow> io_step list \<Rightarrow> int list \<Rightarrow> (int \<times> event list) option" where
  "eio_async_io alloc notify context err during later =
     (if \<not> alloc then Some (- ENOMEM, [])
      else
        (let io = \<lparr>io_count = 1, io_error = 0, io_event = False, io_callback = notify,
                   io_context = context\<rparr>
         in case io_run io during of
              (io1, es1) \<Rightarrow>
                if err \<noteq> 0 then
                  (case io_run io1 (map Endio later) of
                     (io2, es2) \<Rightarrow>
                       if io_count io2 = 1 then Some (err, es1 @ es2 @ [Mempool_free_io]) else None)
                else
                  (case io_run io1 (Drop_extra # map Endio later) of
                     (io2, es2) \<Rightarrow> Some (err, es1 @ es2))))"

text \<open>
  A dispatch that issues transfers and sees some of them complete: every completion
  belongs to a transfer issued before. The first argument is the number of transfers
  issued and not yet completed; the result is that number at the end.
\<close>

fun outstanding :: "nat \<Rightarrow> io_step list \<Rightarrow> nat option" where
  "outstanding k [] = Some k"
| "outstanding k (Issue # xs) = outstanding (Suc k) xs"
| "outstanding k (Endio error # xs) = (case k of 0 \<Rightarrow> None | Suc j \<Rightarrow> outstanding j xs)"
| "outstanding k (Drop_extra # xs) = None"

text \<open>
  All the steps on the tracker of a dispatch that succeeded, in their order: those while
  the dispatch function runs, the drop of the extra reference, the later completions.
\<close>

definition dispatch_schedule :: "io_step list \<Rightarrow> int list \<Rightarrow> io_step list" where
  "dispatch_schedule during later = during @ Drop_extra # map Endio later"

text \<open>The errors of the completions among the steps, in their order.\<close>

fun endio_errors :: "io_step list \<Rightarrow> int list" where
  "endio_errors [] = []"
| "endio_errors (Endio error # xs) = error # endio_errors xs"
| "endio_errors (x # xs) = endio_errors xs"

text \<open>The number of transfers issued.\<close>

definition issued :: "io_step list \<Rightarrow> nat" where
  "issued xs = count_list xs Issue"

text \<open>
  The error a tracker or container holds after completions with the errors \<open>es\<close>, starting
  from \<open>e0\<close>: every non-zero error overwrites the one before, so it is the last non-zero
  one. \<open>first_error\<close> is the rule of the spec: the first non-zero error observed.
\<close>

fun last_error :: "int \<Rightarrow> int list \<Rightarrow> int" where
  "last_error e0 [] = e0"
| "last_error e0 (e # es) = last_error (if e \<noteq> 0 then e else e0) es"

fun first_error :: "int list \<Rightarrow> int" where
  "first_error [] = 0"
| "first_error (e # es) = (if e \<noteq> 0 then e else first_error es)"

section \<open>Completion of the sub-bios of a split bio\<close>

text \<open>
  \<open>eio_split_endio\<close> for the container at address \<open>a\<close>, called with a sub-bio and its
  error: the container afterwards and the events.
\<close>

definition eio_split_endio ::
  "nat \<Rightarrow> bio_container \<Rightarrow> bio \<Rightarrow> int \<Rightarrow> bio_container \<times> event list" where
  "eio_split_endio a bc cbio error =
     (let bc1 = (if error \<noteq> 0 then bc\<lparr>bc_error := error\<rparr> else bc);
          bc2 = bc1\<lparr>bc_holdcount := bc_holdcount bc1 - 1\<rparr>
      in (bc2, Bio_put cbio #
               (if bc_holdcount bc2 = 0
                then [Bio_endio (bc_bio bc2) (bc_error bc2), Kfree_bio_container a]
                else [])))"

text \<open>
  The sub-bios of a bio when every allocation succeeds: one per whole sector of the bio,
  for consecutive sectors from the bio's first.
\<close>

definition split_sub_bios :: "bio \<Rightarrow> nat \<Rightarrow> bio list" where
  "split_sub_bios b bc =
     map (\<lambda>j. eio_split_new_bio b bc (bi_sector b + of_nat j))
       [0..<unat (drop_bit SECTOR_SHIFT (bi_size b))]"

text \<open>The sub-bios complete one after the other, each with its error.\<close>

fun split_endio_run ::
  "nat \<Rightarrow> bio_container \<Rightarrow> (bio \<times> int) list \<Rightarrow> bio_container \<times> event list" where
  "split_endio_run a bc [] = (bc, [])"
| "split_endio_run a bc ((cbio, error) # xs) =
     (case eio_split_endio a bc cbio error of
        (bc1, es1) \<Rightarrow> (case split_endio_run a bc1 xs of (bc2, es2) \<Rightarrow> (bc2, es1 @ es2)))"

section \<open>Editing a cache: policy switch, mode switch, eio\_cache\_edit\<close>

text \<open>
  The policy engine, which lives in other files. \<open>eio_policy_init\<close> returns its error and
  the pointer it leaves in \<open>dmc->policy_ops\<close> (it initialises the policy structures of the
  cache object and writes nothing else of it); the two \<open>repl\<close> functions return their
  error for the policy structures they are given.
\<close>

record policy_env =
  eio_policy_init :: "cache_c \<Rightarrow> int \<times> nat option"
  eio_repl_blk_init :: "nat option \<Rightarrow> int"
  eio_repl_sets_init :: "nat option \<Rightarrow> int"

text \<open>
  \<open>eio_policy_switch\<close> for the cache object \<open>dmc\<close> at address \<open>a\<close>: the return value, the
  cache object afterwards and the events. The label \<open>out\<close> is the last branch.
\<close>

definition eio_policy_switch ::
  "policy_env \<Rightarrow> nat \<Rightarrow> cache_c \<Rightarrow> 32 word \<Rightarrow> int \<times> cache_c \<times> event list" where
  "eio_policy_switch P a dmc policy =
     (let old_policy_ops = policy_ops dmc in
      case eio_policy_init P dmc of
        (e1, p1) \<Rightarrow>
          (let d1 = dmc\<lparr>policy_ops := p1\<rparr>;
               error = (if e1 \<noteq> 0 then e1
                        else if eio_repl_blk_init P (policy_ops d1) \<noteq> 0 then - ENOMEM
                        else if eio_repl_sets_init P (policy_ops d1) \<noteq> 0 then - ENOMEM
                        else 0)
           in if error = 0
              then (0, d1\<lparr>req_policy := policy\<rparr>, [Call_eio_policy_lru_pushblks (policy_ops d1)])
              else (error, d1\<lparr>policy_ops := old_policy_ops\<rparr>,
                    if policy_ops d1 \<noteq> old_policy_ops
                    then [Call_eio_policy_free a (policy_ops d1)] else [])))"

text \<open>
  The other collaborators of \<open>eio_cache_edit\<close>: what \<open>eio_stop_async_tasks\<close> leaves of the
  cache object, and the return values of \<open>eio_allocate_wb_resources\<close>, \<open>eio_sb_store\<close> and
  \<open>eio_start_clean_thread\<close>.
\<close>

record edit_env =
  eio_stop_async_tasks :: "cache_c \<Rightarrow> cache_c"
  eio_allocate_wb_resources :: "cache_c \<Rightarrow> int"
  eio_sb_store :: "cache_c \<Rightarrow> int"
  eio_start_clean_thread :: "cache_c \<Rightarrow> int"

definition eio_mode_switch ::
  "ttc_config \<Rightarrow> edit_env \<Rightarrow> nat \<Rightarrow> cache_c \<Rightarrow> 32 word \<Rightarrow> int \<times> cache_c \<times> event list" where
  "eio_mode_switch C Ed a dmc m =
     (if m = CACHE_MODE_WB C then
        (let orig_mode = mode dmc;
             d1 = dmc\<lparr>mode := m\<rparr>;
             error = eio_allocate_wb_resources Ed d1
         in if error \<noteq> 0 then (error, d1\<lparr>mode := orig_mode\<rparr>, []) else (0, d1, []))
      else if mode dmc = CACHE_MODE_WB C
      then (0, dmc\<lparr>mode := m\<rparr>, [Call_eio_free_wb_resources a])
      else (0, dmc\<lparr>mode := m\<rparr>, []))"

text \<open>Two abbreviations for the state: change the cache object at \<open>a\<close>, append events.\<close>

definition upd_dmc :: "ttc_state \<Rightarrow> nat \<Rightarrow> cache_c \<Rightarrow> ttc_state" where
  "upd_dmc s a d = s\<lparr>heap := (heap s)(a := d)\<rparr>"

definition log_events :: "ttc_state \<Rightarrow> event list \<Rightarrow> ttc_state" where
  "log_events s es = s\<lparr>trace := trace s @ es\<rparr>"

text \<open>\<open>eio_cache_edit\<close> from the label \<open>out\<close> on.\<close>

definition edit_out ::
  "ttc_config \<Rightarrow> edit_env \<Rightarrow> ttc_state \<Rightarrow> nat \<Rightarrow> 32 word \<Rightarrow> bool \<Rightarrow> int \<Rightarrow> int \<times> ttc_state" where
  "edit_out C Ed s a old_time_thresh restart_async_task error =
     (let d0 = heap s a;
          d1 = d0\<lparr>time_based_clean_interval := old_time_thresh\<rparr>;
          d2 = d1\<lparr>do_clean := do_clean d1 AND NOT (EIO_CLEAN_START C OR EIO_CLEAN_KEEP C)\<rparr>;
          restart = (mode d2 = CACHE_MODE_WB C \<and> restart_async_task);
          ret = eio_start_clean_thread Ed d2;
          error1 = (if restart \<and> ret \<noteq> 0 then ret else error);
          sched = (restart \<and> time_based_clean_interval d2 \<noteq> 0 \<and> nr_dirty d2 \<noteq> 0);
          d3 = (if sched then d2\<lparr>is_clean_aged_sets_sched := 1\<rparr> else d2);
          d4 = d3\<lparr>cache_flags := cache_flags d3 AND NOT (CACHE_FLAGS_MOD_INPROG C)\<rparr>
      in (error1,
          log_events (upd_dmc s a d4)
            ((if restart then [Call_eio_start_clean_thread a] else []) @
             (if sched then [Schedule_delayed_work a] else []) @
             [Spin_lock_irqsave a, Spin_unlock_irqrestore a])))"

text \<open>
  \<open>eio_cache_edit\<close> from \<open>down_write\<close> to the label \<open>out\<close>: the error and the state with
  which \<open>out\<close> is reached. On a failed \<open>eio_sb_store\<close> the source jumps to \<open>out\<close> without
  \<open>up_write\<close>.
\<close>

definition edit_locked ::
  "nat \<Rightarrow> ttc_config \<Rightarrow> life_env \<Rightarrow> policy_env \<Rightarrow> edit_env \<Rightarrow> ttc_state \<Rightarrow> nat \<Rightarrow>
   32 word \<Rightarrow> 32 word \<Rightarrow> 32 word \<Rightarrow> (int \<times> ttc_state) option" where
  "edit_locked fuel C L P Ed s a m p old_time_thresh =
     (let index = EIO_HASH_BDEV C (bd_contains (disk_bdev (heap s a))) in
      case wait_nr_ios fuel L (heap s a) of
        None \<Rightarrow> None
      | Some (d0, sleeps) \<Rightarrow>
          (let es0 = Down_write index # replicate sleeps Schedule_timeout in
           case (if p \<noteq> 0 \<and> p \<noteq> req_policy d0 then eio_policy_switch P a d0 p else (0, d0, [])) of
             (e1, d1, es1) \<Rightarrow>
               if e1 \<noteq> 0
               then Some (e1, log_events (upd_dmc s a d1) (es0 @ es1 @ [Up_write index]))
               else
                 (case (if m \<noteq> 0 \<and> m \<noteq> mode d1 then eio_mode_switch C Ed a d1 m else (0, d1, [])) of
                    (e2, d2, es2) \<Rightarrow>
                      if e2 \<noteq> 0
                      then Some (e2, log_events (upd_dmc s a d2) (es0 @ es1 @ es2 @ [Up_write index]))
                      else
                        (let d3 = d2\<lparr>time_based_clean_interval := old_time_thresh\<rparr>;
                             e3 = eio_sb_store Ed d3
                         in if e3 \<noteq> 0
                            then Some (e3, log_events (upd_dmc s a d3) (es0 @ es1 @ es2))
                            else Some (0, log_events (upd_dmc s a d3)
                                        (es0 @ es1 @ es2 @
                                         [Call_eio_procfs_dtr a, Call_eio_procfs_ctr a,
                                          Up_write index]))))))"

text \<open>
  \<open>eio_cache_edit\<close> after \<open>CACHE_FLAGS_MOD_INPROG\<close> was set: the two write-back stages,
  the locked stage, and \<open>out\<close>.
\<close>

definition edit_modify ::
  "nat \<Rightarrow> ttc_config \<Rightarrow> life_env \<Rightarrow> policy_env \<Rightarrow> edit_env \<Rightarrow> ttc_state \<Rightarrow> nat \<Rightarrow>
   32 word \<Rightarrow> 32 word \<Rightarrow> (int \<times> ttc_state) option" where
  "edit_modify fuel C L P Ed s a m p =
     (let old_time_thresh = time_based_clean_interval (heap s a) in
      if mode (heap s a) = CACHE_MODE_WB C \<and> CACHE_FAILED_IS_SET C (heap s a)
      then Some (edit_out C Ed s a old_time_thresh False (- EINVAL))
      else
        (let restart_async_task = (mode (heap s a) = CACHE_MODE_WB C);
             s1 = (if restart_async_task
                   then log_events (upd_dmc s a (eio_stop_async_tasks Ed (heap s a)))
                          [Call_eio_stop_async_tasks a]
                   else s)
         in if mode (heap s1 a) = CACHE_MODE_WB C \<and> m \<noteq> CACHE_MODE_WB C
            then
              (if CACHE_FAILED_IS_SET C (heap s1 a)
               then Some (edit_out C Ed s1 a old_time_thresh restart_async_task (- EINVAL))
               else
                 (case eio_finish_nrdirty fuel C L s1 a of
                    None \<Rightarrow> None
                  | Some (error, s2) \<Rightarrow>
                      if error \<noteq> 0
                      then Some (edit_out C Ed s2 a old_time_thresh restart_async_task error)
                      else
                        (case edit_locked fuel C L P Ed s2 a m p old_time_thresh of
                           None \<Rightarrow> None
                         | Some (e, s3) \<Rightarrow>
                             Some (edit_out C Ed s3 a old_time_thresh restart_async_task e))))
            else
              (case edit_locked fuel C L P Ed s1 a m p old_time_thresh of
                 None \<Rightarrow> None
               | Some (e, s3) \<Rightarrow> Some (edit_out C Ed s3 a old_time_thresh restart_async_task e))))"

text \<open>
  \<open>eio_cache_edit\<close>. Every refusal returns \<open>-EINVAL\<close>; the flags are tested between
  \<open>spin_lock_irqsave\<close> and \<open>spin_unlock_irqrestore\<close> on the cache object's own lock.
\<close>

definition eio_cache_edit ::
  "nat \<Rightarrow> ttc_config \<Rightarrow> life_env \<Rightarrow> policy_env \<Rightarrow> edit_env \<Rightarrow> ttc_state \<Rightarrow> string \<Rightarrow>
   32 word \<Rightarrow> 32 word \<Rightarrow> (int \<times> ttc_state) option" where
  "eio_cache_edit fuel C L P Ed s name m p =
     (case eio_cache_lookup C s name of
        (None, es) \<Rightarrow> Some (- EINVAL, log_events s es)
      | (Some a, es) \<Rightarrow>
          (let dmc = heap s a in
           if mode dmc = m \<and> req_policy dmc = p then Some (0, log_events s es)
           else if CACHE_FAILED_IS_SET C dmc \<or> CACHE_DEGRADED_IS_SET C dmc
           then Some (- EINVAL, log_events s es)
           else if cache_flags dmc AND CACHE_FLAGS_SHUTDOWN_INPROG C \<noteq> 0
           then Some (- EINVAL,
                      log_events s (es @ [Spin_lock_irqsave a, Spin_unlock_irqrestore a]))
           else if cache_flags dmc AND CACHE_FLAGS_MOD_INPROG C \<noteq> 0
           then Some (- EINVAL,
                      log_events s (es @ [Spin_lock_irqsave a, Spin_unlock_irqrestore a]))
           else
             edit_modify fuel C L P Ed
               (log_events
                  (upd_dmc s a (dmc\<lparr>cache_flags := cache_flags dmc OR CACHE_FLAGS_MOD_INPROG C\<rparr>))
                  (es @ [Spin_lock_irqsave a, Spin_unlock_irqrestore a]))
               a m p))"

text \<open>
  The registry shard locks held after a list of events, given those held before: the
  indices of the shards whose read or write lock is taken and not yet released.
\<close>

fun shard_locks_held :: "nat list \<Rightarrow> event list \<Rightarrow> nat list" where
  "shard_locks_held held [] = held"
| "shard_locks_held held (Down_read i # es) = shard_locks_held (i # held) es"
| "shard_locks_held held (Down_write i # es) = shard_locks_held (i # held) es"
| "shard_locks_held held (Up_read i # es) = shard_locks_held (remove1 i held) es"
| "shard_locks_held held (Up_write i # es) = shard_locks_held (remove1 i held) es"
| "shard_locks_held held (e # es) = shard_locks_held held es"

section \<open>Concrete inputs\<close>

text \<open>
  A configuration with sixteen shards, a disk (number 8) with two partitions, sectors
  100 to 199 and 300 to 399, an SSD (number 9), and cache objects at addresses 1 (on the
  first partition), 2 and 3 (both on the second) and 4 (on the whole disk).
\<close>

definition ex_config :: ttc_config where
  "ex_config =
     \<lparr>EIO_HASHTBL_SIZE = 16, EIO_HASH_BDEV = (\<lambda>d. d mod 16), WRITE_FLUSH = 0,
      CACHE_MODE_WB = 1, CACHE_FLAGS_SHUTDOWN_INPROG = 8, CACHE_FLAGS_MOD_INPROG = 2,
      CACHE_FAILED_IS_SET = (\<lambda>d. cache_flags d AND 16 \<noteq> 0),
      CACHE_DEGRADED_IS_SET = (\<lambda>d. cache_flags d AND 32 \<noteq> 0),
      EIO_CLEAN_START = 1, EIO_CLEAN_KEEP = 2, FINISH_NRDIRTY_RETRY_COUNT = 2\<rparr>"

definition ex_disk :: block_device where
  "ex_disk = \<lparr>bd_self = 8, bd_contains = 8, start_sect = 0, nr_sects = 1000\<rparr>"

definition ex_part1 :: block_device where
  "ex_part1 = \<lparr>bd_self = 81, bd_contains = 8, start_sect = 100, nr_sects = 100\<rparr>"

definition ex_part2 :: block_device where
  "ex_part2 = \<lparr>bd_self = 82, bd_contains = 8, start_sect = 300, nr_sects = 100\<rparr>"

definition ex_ssd :: block_device where
  "ex_ssd = \<lparr>bd_self = 9, bd_contains = 9, start_sect = 0, nr_sects = 500\<rparr>"

definition ex_cache :: "string \<Rightarrow> block_device \<Rightarrow> cache_c" where
  "ex_cache name d =
     \<lparr>cache_name = name, disk_bdev = d, cache_bdev = ex_ssd, dev_start_sect = start_sect d,
      dev_end_sect = start_sect d + nr_sects d - 1, dev_info = EIO_DEV_PARTITION,
      origmfn = None, mode = 3, req_policy = 1, policy_ops = Some 1,
      cache_flags = 0, nr_ios = 0, nr_dirty = 0, fast_remove = 0, do_clean = 0,
      time_based_clean_interval = 0, is_clean_aged_sets_sched = 0\<rparr>"

definition ex_heap :: "nat \<Rightarrow> cache_c" where
  "ex_heap a =
     (if a = 1 then ex_cache ''A'' ex_part1
      else if a = 2 then ex_cache ''B'' ex_part2
      else if a = 3 then ex_cache ''C'' ex_part2
      else ex_cache ''W'' ex_disk)"

text \<open>No binding is linked and every queue has its driver's entry point.\<close>

definition ex_state0 :: ttc_state where
  "ex_state0 =
     \<lparr>heap = ex_heap, eio_ttc_list = (\<lambda>i. []), make_request_fn = (\<lambda>q. Some (MFN_DRIVER q)),
      trace = []\<rparr>"

text \<open>Other threads complete one in-flight I/O per sleep; the cleaner cleans every block.\<close>

definition ex_life :: life_env where
  "ex_life =
     \<lparr>while_asleep = (\<lambda>d. d\<lparr>nr_ios := nr_ios d - 1\<rparr>),
      eio_clean_all = (\<lambda>d. d\<lparr>nr_dirty := 0\<rparr>)\<rparr>"

text \<open>The cache engine accepts every bio; every allocation succeeds.\<close>

definition ex_env :: io_env where
  "ex_env =
     \<lparr>eio_map = (\<lambda>d b. (0, b)), kmalloc_bioptr = (\<lambda>b. True), kmalloc_bc = (\<lambda>b. Some 500),
      bio_alloc = (\<lambda>b i. True)\<rparr>"

text \<open>A write of \<open>n\<close> bytes at sector \<open>s\<close>, submitted on the whole disk.\<close>

definition ex_bio :: "sector_t \<Rightarrow> 32 word \<Rightarrow> bio" where
  "ex_bio s n =
     \<lparr>bi_bdev = ex_disk, bi_sector = s, bi_size = n, bi_op = REQ_OP_WRITE, bi_op_flags = 0,
      bi_end_io = END_caller 0, bi_private = None\<rparr>"

text \<open>Both partitions are cached, then the first cache is deleted without force.\<close>

definition ex_ops :: "ttc_op list" where
  "ex_ops = [Activate 1, Activate 2, Deactivate 1 False]"

text \<open>The registry after caches 1 and 2 were activated in this order.\<close>

definition ex_state12 :: ttc_state where
  "ex_state12 = snd (eio_ttc_activate ex_config (snd (eio_ttc_activate ex_config ex_state0 1)) 2)"

text \<open>The same collaborators, but the cache engine refuses every bio with \<open>-EIO\<close>.\<close>

definition ex_env_fail :: io_env where
  "ex_env_fail = ex_env\<lparr>eio_map := (\<lambda>d b. (- EIO, b))\<rparr>"

text \<open>
  A write of three sectors at sector 198: two sectors lie in the first partition, the third
  behind it. Its sub-bios complete in order with the given errors.
\<close>

definition ex_overlap_bio :: bio where
  "ex_overlap_bio = ex_bio 198 1536"

definition ex_comps :: "int list \<Rightarrow> (bio \<times> int) list" where
  "ex_comps errors = zip (split_sub_bios ex_overlap_bio 500) errors"

text \<open>
  The registry with caches 1 and 2 linked, cache 1 in write-back mode with five dirty
  blocks and the given flags.
\<close>

definition ex_state_dirty :: "32 word \<Rightarrow> ttc_state" where
  "ex_state_dirty flags =
     ex_state12\<lparr>heap := (heap ex_state12)
       (1 := (heap ex_state12 1)\<lparr>mode := 1, nr_dirty := 5, cache_flags := flags\<rparr>)\<rparr>"

text \<open>A cleaner that cleans nothing while a shutdown begins.\<close>

definition ex_life_stuck :: life_env where
  "ex_life_stuck =
     \<lparr>while_asleep = (\<lambda>d. d\<lparr>nr_ios := nr_ios d - 1\<rparr>),
      eio_clean_all = (\<lambda>d. d\<lparr>cache_flags := cache_flags d OR 8\<rparr>)\<rparr>"

text \<open>
  A policy engine whose initialisation installs new structures (at address 2) and whose
  second step fails; one whose every step succeeds; and collaborators of the edit that
  always succeed.
\<close>

definition ex_policy_fail :: policy_env where
  "ex_policy_fail =
     \<lparr>eio_policy_init = (\<lambda>d. (0, Some 2)), eio_repl_blk_init = (\<lambda>p. 1),
      eio_repl_sets_init = (\<lambda>p. 0)\<rparr>"

definition ex_policy_ok :: policy_env where
  "ex_policy_ok =
     \<lparr>eio_policy_init = (\<lambda>d. (0, Some 2)), eio_repl_blk_init = (\<lambda>p. 0),
      eio_repl_sets_init = (\<lambda>p. 0)\<rparr>"

definition ex_edit :: edit_env where
  "ex_edit =
     \<lparr>eio_stop_async_tasks = (\<lambda>d. d\<lparr>time_based_clean_interval := 0\<rparr>),
      eio_allocate_wb_resources = (\<lambda>d. 0), eio_sb_store = (\<lambda>d. 0),
      eio_start_clean_thread = (\<lambda>d. 0)\<rparr>"

text \<open>The registry with caches 1 and 2 linked and the given flags on cache 1.\<close>

definition ex_state_flags :: "32 word \<Rightarrow> ttc_state" where
  "ex_state_flags flags =
     ex_state12\<lparr>heap := (heap ex_state12)(1 := (heap ex_state12 1)\<lparr>cache_flags := flags\<rparr>)\<rparr>"

section \<open>Theorems\<close>

subsection \<open>The registry invariant under activation and deactivation\<close>

lemma activate_scan_none:
  "filter (\<lambda>a. bd_contains (disk_bdev (h a)) = bd_contains bdev) l = [] \<Longrightarrow>
   activate_scan h bdev w l = (0, None)"
  by (induction l) (auto split: if_splits)

lemma activate_scan_first:
  "filter (\<lambda>a. bd_contains (disk_bdev (h a)) = bd_contains bdev) l = b # bs \<Longrightarrow>
   activate_scan h bdev w l =
     (if w \<or> dev_info (h b) = EIO_DEV_WHOLE_DISK \<or> bd_self (disk_bdev (h b)) = bd_self bdev
      then (- EINVAL, None) else (0, origmfn (h b)))"
  by (induction l) (auto split: if_splits simp: Let_def)

lemma volatile_from_fields [simp]:
  "disk_bdev (volatile_from d d') = disk_bdev d"
  "origmfn (volatile_from d d') = origmfn d"
  "dev_info (volatile_from d d') = dev_info d"
  "mode (volatile_from d d') = mode d"
  "nr_ios (volatile_from d d') = nr_ios d'"
  by (simp_all add: volatile_from_def)

lemma wait_nr_ios_fields:
  "wait_nr_ios n L d = Some (d', k) \<Longrightarrow>
   disk_bdev d' = disk_bdev d \<and> origmfn d' = origmfn d \<and> dev_info d' = dev_info d \<and> nr_ios d' = 0"
  by (induction n arbitrary: d d' k) (auto split: if_splits option.splits)

lemma finish_nrdirty_loop_fields:
  "finish_nrdirty_loop n C L d = Some (r, d', k) \<Longrightarrow>
   disk_bdev d' = disk_bdev d \<and> origmfn d' = origmfn d \<and> dev_info d' = dev_info d"
  by (induction n arbitrary: d d' k r) (auto split: if_splits option.splits simp: Let_def)

lemma eio_finish_nrdirty_frame:
  assumes "eio_finish_nrdirty n C L s a = Some (r, s')"
  shows "eio_ttc_list s' = eio_ttc_list s" "make_request_fn s' = make_request_fn s"
    "disk_bdev (heap s' x) = disk_bdev (heap s x)"
    "origmfn (heap s' x) = origmfn (heap s x)"
    "dev_info (heap s' x) = dev_info (heap s x)"
  using assms
  by (auto simp: eio_finish_nrdirty_def Let_def split: option.splits prod.splits
      dest!: wait_nr_ios_fields finish_nrdirty_loop_fields)

lemma activate_scan_heap_cong:
  "(\<And>x. disk_bdev (h' x) = disk_bdev (h x) \<and> dev_info (h' x) = dev_info (h x) \<and> origmfn (h' x) = origmfn (h x))
   \<Longrightarrow> activate_scan h' bdev w l = activate_scan h bdev w l"
  by (induction l) (auto simp: Let_def)


lemma activate_fail:
  assumes "activate_scan (heap s) (disk_bdev (heap s a))
              (bd_self (disk_bdev (heap s a)) = bd_contains (disk_bdev (heap s a)))
              (eio_ttc_list s (shard_of C s a)) = (r, om)" "r \<noteq> 0"
  shows "eio_ttc_list (snd (eio_ttc_activate C s a)) = eio_ttc_list s"
    "make_request_fn (snd (eio_ttc_activate C s a)) = make_request_fn s"
    "disk_bdev (heap (snd (eio_ttc_activate C s a)) x) = disk_bdev (heap s x)"
    "origmfn (heap (snd (eio_ttc_activate C s a)) x) = origmfn (heap s x)"
    "dev_info (heap (snd (eio_ttc_activate C s a)) x) = dev_info (heap s x)"
proof -
  let ?h1 = "(heap s)(a := (heap s a)
                  \<lparr>dev_start_sect := start_sect (disk_bdev (heap s a)),
                   dev_end_sect := start_sect (disk_bdev (heap s a)) + nr_sects (disk_bdev (heap s a)) - 1\<rparr>)"
  have eq: "activate_scan ?h1 bdev w l = activate_scan (heap s) bdev w l" for bdev w l
    by (rule activate_scan_heap_cong) simp
  have res: "eio_ttc_activate C s a =
      (r, s\<lparr>heap := ?h1, trace := trace s @ [Down_write (shard_of C s a), Up_write (shard_of C s a)]\<rparr>)"
    using assms unfolding eio_ttc_activate_def Let_def eq shard_of_def by simp
  show "eio_ttc_list (snd (eio_ttc_activate C s a)) = eio_ttc_list s"
    "make_request_fn (snd (eio_ttc_activate C s a)) = make_request_fn s"
    "disk_bdev (heap (snd (eio_ttc_activate C s a)) x) = disk_bdev (heap s x)"
    "origmfn (heap (snd (eio_ttc_activate C s a)) x) = origmfn (heap s x)"
    "dev_info (heap (snd (eio_ttc_activate C s a)) x) = dev_info (heap s x)"
    unfolding res by simp_all
qed

lemma activate_ok:
  assumes "activate_scan (heap s) (disk_bdev (heap s a))
              (bd_self (disk_bdev (heap s a)) = bd_contains (disk_bdev (heap s a)))
              (eio_ttc_list s (shard_of C s a)) = (0, om)"
  shows "eio_ttc_list (snd (eio_ttc_activate C s a)) =
           (eio_ttc_list s)(shard_of C s a := eio_ttc_list s (shard_of C s a) @ [a])"
    "make_request_fn (snd (eio_ttc_activate C s a)) =
       (case om of Some f \<Rightarrow> make_request_fn s
        | None \<Rightarrow> (make_request_fn s)(bd_contains (disk_bdev (heap s a)) := Some MFN_EIO))"
    "disk_bdev (heap (snd (eio_ttc_activate C s a)) x) = disk_bdev (heap s x)"
    "x \<noteq> a \<Longrightarrow> origmfn (heap (snd (eio_ttc_activate C s a)) x) = origmfn (heap s x)"
    "x \<noteq> a \<Longrightarrow> dev_info (heap (snd (eio_ttc_activate C s a)) x) = dev_info (heap s x)"
    "origmfn (heap (snd (eio_ttc_activate C s a)) a) =
       (case om of Some f \<Rightarrow> Some f | None \<Rightarrow> make_request_fn s (bd_contains (disk_bdev (heap s a))))"
    "dev_info (heap (snd (eio_ttc_activate C s a)) a) =
       (case om of Some f \<Rightarrow> EIO_DEV_PARTITION
        | None \<Rightarrow> if bd_self (disk_bdev (heap s a)) = bd_contains (disk_bdev (heap s a))
                  then EIO_DEV_WHOLE_DISK else EIO_DEV_PARTITION)"
proof -
  let ?h1 = "(heap s)(a := (heap s a)
                  \<lparr>dev_start_sect := start_sect (disk_bdev (heap s a)),
                   dev_end_sect := start_sect (disk_bdev (heap s a)) + nr_sects (disk_bdev (heap s a)) - 1\<rparr>)"
  have eq: "activate_scan ?h1 bdev w l = activate_scan (heap s) bdev w l" for bdev w l
    by (rule activate_scan_heap_cong) simp
  obtain s' where res: "eio_ttc_activate C s a = (0, s')" and
    s': "s' = s\<lparr>heap := ?h1(a := (?h1 a)
                           \<lparr>origmfn := (case om of Some f \<Rightarrow> Some f | None \<Rightarrow> make_request_fn s (bd_contains (disk_bdev (heap s a)))),
                            dev_info := (case om of
                                           Some f \<Rightarrow> EIO_DEV_PARTITION
                                         | None \<Rightarrow> if bd_self (disk_bdev (heap s a)) = bd_contains (disk_bdev (heap s a)) then EIO_DEV_WHOLE_DISK
                                                   else EIO_DEV_PARTITION)\<rparr>),
                         make_request_fn :=
                           (case om of
                              Some f \<Rightarrow> make_request_fn s
                            | None \<Rightarrow> (make_request_fn s)(bd_contains (disk_bdev (heap s a)) := Some MFN_EIO)),
                         eio_ttc_list := (eio_ttc_list s)(shard_of C s a := eio_ttc_list s (shard_of C s a) @ [a]),
                         trace := trace s @
                           [Down_write (shard_of C s a), Msleep] @
                           eio_issue_empty_barrier_flush (disk_bdev (heap s a)) None (case om of Some f \<Rightarrow> Some f | None \<Rightarrow> make_request_fn s (bd_contains (disk_bdev (heap s a)))) REQ_OP_FLUSH (WRITE_FLUSH C) @
                           [Up_write (shard_of C s a)]\<rparr>"
    using assms unfolding eio_ttc_activate_def Let_def eq shard_of_def by simp
  show "eio_ttc_list (snd (eio_ttc_activate C s a)) =
           (eio_ttc_list s)(shard_of C s a := eio_ttc_list s (shard_of C s a) @ [a])"
    "make_request_fn (snd (eio_ttc_activate C s a)) =
       (case om of Some f \<Rightarrow> make_request_fn s
        | None \<Rightarrow> (make_request_fn s)(bd_contains (disk_bdev (heap s a)) := Some MFN_EIO))"
    "disk_bdev (heap (snd (eio_ttc_activate C s a)) x) = disk_bdev (heap s x)"
    "x \<noteq> a \<Longrightarrow> origmfn (heap (snd (eio_ttc_activate C s a)) x) = origmfn (heap s x)"
    "x \<noteq> a \<Longrightarrow> dev_info (heap (snd (eio_ttc_activate C s a)) x) = dev_info (heap s x)"
    "origmfn (heap (snd (eio_ttc_activate C s a)) a) =
       (case om of Some f \<Rightarrow> Some f | None \<Rightarrow> make_request_fn s (bd_contains (disk_bdev (heap s a))))"
    "dev_info (heap (snd (eio_ttc_activate C s a)) a) =
       (case om of Some f \<Rightarrow> EIO_DEV_PARTITION
        | None \<Rightarrow> if bd_self (disk_bdev (heap s a)) = bd_contains (disk_bdev (heap s a))
                  then EIO_DEV_WHOLE_DISK else EIO_DEV_PARTITION)"
    unfolding res s' by simp_all
qed

lemma activate_inv:
  assumes inv: "ttc_inv C D k s" and fresh: "a \<notin> set (eio_ttc_list s (shard_of C s a))"
  shows "ttc_inv C D k (snd (eio_ttc_activate C s a))"
proof -
  let ?bdev = "disk_bdev (heap s a)"
  let ?s' = "snd (eio_ttc_activate C s a)"
  obtain r om where scan: "activate_scan (heap s) ?bdev (bd_self ?bdev = bd_contains ?bdev)
      (eio_ttc_list s (shard_of C s a)) = (r, om)"
    by (cases "activate_scan (heap s) ?bdev (bd_self ?bdev = bd_contains ?bdev)
      (eio_ttc_list s (shard_of C s a))") auto
  show ?thesis
  proof (cases "r = 0")
    case False
    have "bindings_of C ?s' D = bindings_of C s D"
      by (simp add: bindings_of_def activate_fail [OF scan False])
    then show ?thesis
      using inv by (simp add: ttc_inv_def activate_fail [OF scan False])
  next
    case True
    note ok = activate_ok [OF scan [unfolded True]]
    show ?thesis
    proof (cases "bd_contains ?bdev = D")
      case other: False
      have b: "bindings_of C ?s' D = bindings_of C s D"
        using other by (auto simp: bindings_of_def ok(1,3) shard_of_def)
      have na: "a \<notin> set (bindings_of C s D)"
        using other by (auto simp: bindings_of_def)
      have d: "distinct (eio_ttc_list ?s' (EIO_HASH_BDEV C D))"
        using inv fresh by (auto simp: ttc_inv_def ok(1))
      have m: "make_request_fn ?s' D = make_request_fn s D"
        using other by (auto simp: ok(2) split: option.splits)
      have h: "x \<in> set (bindings_of C s D) \<Longrightarrow>
               origmfn (heap ?s' x) = origmfn (heap s x) \<and> dev_info (heap ?s' x) = dev_info (heap s x)" for x
        using na ok(4,5) by metis
      show ?thesis
        using inv unfolding ttc_inv_def b m by (auto simp: d h)
    next
      case same: True
      have sh: "shard_of C s a = EIO_HASH_BDEV C D"
        using same by (simp add: shard_of_def)
      have b: "bindings_of C ?s' D = bindings_of C s D @ [a]"
        using same by (auto simp: bindings_of_def ok(1,3) sh)
      have na: "a \<notin> set (bindings_of C s D)"
        using fresh by (auto simp: bindings_of_def sh)
      have d: "distinct (eio_ttc_list ?s' (EIO_HASH_BDEV C D))"
        using inv fresh by (auto simp: ttc_inv_def ok(1) sh)
      have h: "x \<in> set (bindings_of C s D) \<Longrightarrow>
               origmfn (heap ?s' x) = origmfn (heap s x) \<and> dev_info (heap ?s' x) = dev_info (heap s x)" for x
        using na ok(4,5) by metis
      have flt: "filter (\<lambda>a. bd_contains (disk_bdev (heap s a)) = bd_contains ?bdev)
                   (eio_ttc_list s (shard_of C s a)) = bindings_of C s D"
        by (simp add: bindings_of_def sh same)
      show ?thesis
      proof (cases "bindings_of C s D")
        case Nil
        have om: "om = None"
          using activate_scan_none [OF flt [unfolded Nil]] scan by simp
        have "make_request_fn s D = Some (MFN_DRIVER k)"
          using inv Nil by (simp add: ttc_inv_def)
        then show ?thesis
          unfolding ttc_inv_def b Nil using d
          by (simp add: ok(2,6,7) om same)
      next
        case (Cons b0 bs)
        have sc: "(r, om) = (if (bd_self ?bdev = bd_contains ?bdev) \<or> dev_info (heap s b0) = EIO_DEV_WHOLE_DISK \<or>
                       bd_self (disk_bdev (heap s b0)) = bd_self ?bdev
                    then (- EINVAL, None) else (0, origmfn (heap s b0)))"
          using activate_scan_first [OF flt [unfolded Cons]] scan by simp
        have b0: "b0 \<in> set (bindings_of C s D)" by (simp add: Cons)
        have nw: "dev_info (heap s b0) \<noteq> EIO_DEV_WHOLE_DISK" and om: "om = origmfn (heap s b0)"
          using sc True by (auto simp: EINVAL_def split: if_splits)
        have omk: "om = Some (MFN_DRIVER k)"
          using inv b0 om by (auto simp: ttc_inv_def)
        have nowhole: "x \<in> set (bindings_of C s D) \<Longrightarrow> dev_info (heap s x) \<noteq> EIO_DEV_WHOLE_DISK" for x
          using inv nw Cons by (auto simp: ttc_inv_def)
        have mr: "make_request_fn s D = Some MFN_EIO"
          using inv Cons by (simp add: ttc_inv_def)
        show ?thesis
          unfolding ttc_inv_def b using d inv mr nowhole
          by (auto simp: ok(2,6,7) omk h ttc_inv_def)
      qed
    qed
  qed
qed

lemma unlink_inv:
  assumes inv: "ttc_inv C D k s" and linked: "a \<in> set (eio_ttc_list s (shard_of C s a))"
    and res: "ttc_deactivate_unlink fuel C L s a r = Some (r', s')"
  shows "ttc_inv C D k s'"
proof -
  let ?idx = "shard_of C s a"
  let ?D' = "bd_contains (disk_bdev (heap s a))"
  let ?found = "found_partitions s a (eio_ttc_list s ?idx)"
  obtain d' n where w: "wait_nr_ios fuel L (heap s a) = Some (d', n)"
    using res by (auto simp: ttc_deactivate_unlink_def Let_def split: option.splits)
  note f = wait_nr_ios_fields [OF w]
  have s': "s' = s\<lparr>heap := (heap s)(a := d'),
              make_request_fn := (if dev_info (heap s a) = EIO_DEV_WHOLE_DISK \<or> \<not> ?found
                 then (make_request_fn s)(?D' := origmfn (heap s a)) else make_request_fn s),
              eio_ttc_list := (eio_ttc_list s)(?idx := remove1 a (eio_ttc_list s ?idx)),
              trace := trace s @ [Down_write ?idx, Up_write ?idx] @ replicate n Schedule_timeout\<rparr>"
    using res w by (simp add: ttc_deactivate_unlink_def Let_def shard_of_def)
  have hd: "disk_bdev (heap s' x) = disk_bdev (heap s x)" for x by (simp add: s' f)
  have ho: "origmfn (heap s' x) = origmfn (heap s x)" for x by (simp add: s' f)
  have hi: "dev_info (heap s' x) = dev_info (heap s x)" for x by (simp add: s' f)
  have b: "bindings_of C s' D = remove1 a (bindings_of C s D)"
  proof (cases "EIO_HASH_BDEV C D = ?idx")
    case True
    then show ?thesis
      using hd by (simp add: bindings_of_def s' filter_remove1)
  next
    case False
    then have "?D' \<noteq> D" by (auto simp: shard_of_def)
    then have "a \<notin> set (bindings_of C s D)" by (auto simp: bindings_of_def)
    then have "remove1 a (bindings_of C s D) = bindings_of C s D" by (simp add: remove1_idem)
    moreover have "bindings_of C s' D = bindings_of C s D"
      using False hd by (simp add: bindings_of_def s')
    ultimately show ?thesis by simp
  qed
  have d: "distinct (eio_ttc_list s' (EIO_HASH_BDEV C D))"
    using inv by (auto simp: s' ttc_inv_def)
  have db: "distinct (bindings_of C s D)"
    using inv by (auto simp: ttc_inv_def bindings_of_def)
  show ?thesis
  proof (cases "?D' = D")
    case False
    then have "a \<notin> set (bindings_of C s D)" by (auto simp: bindings_of_def)
    then have b': "bindings_of C s' D = bindings_of C s D" by (simp add: b remove1_idem)
    have m: "make_request_fn s' D = make_request_fn s D"
      using False by (simp add: s')
    show ?thesis
      using inv d unfolding ttc_inv_def b' m ho hi by simp
  next
    case True
    have sh: "?idx = EIO_HASH_BDEV C D" using True by (simp add: shard_of_def)
    have ain: "a \<in> set (bindings_of C s D)"
      using linked True by (simp add: bindings_of_def sh)
    have oa: "origmfn (heap s a) = Some (MFN_DRIVER k)"
      using inv ain by (auto simp: ttc_inv_def)
    have found_iff: "?found \<longleftrightarrow> dev_info (heap s a) \<noteq> EIO_DEV_WHOLE_DISK \<and> remove1 a (bindings_of C s D) \<noteq> []"
    proof -
      have "remove1 a (bindings_of C s D) \<noteq> [] \<longleftrightarrow> (\<exists>x \<in> set (bindings_of C s D). x \<noteq> a)"
        using db by (auto simp: set_remove1_eq [OF db] simp flip: set_empty)
      then show ?thesis
        by (auto simp: found_partitions_def list_ex_iff bindings_of_def sh True)
    qed
    have whole: "dev_info (heap s a) = EIO_DEV_WHOLE_DISK \<Longrightarrow> remove1 a (bindings_of C s D) = []"
      using inv ain by (auto simp: ttc_inv_def)
    have m: "make_request_fn s' D =
        (if remove1 a (bindings_of C s D) = [] then Some (MFN_DRIVER k) else Some MFN_EIO)"
    proof (cases "remove1 a (bindings_of C s D) = []")
      case True
      then show ?thesis using found_iff by (simp add: s' \<open>?D' = D\<close> oa)
    next
      case False
      then have "bindings_of C s D \<noteq> []" by auto
      then have "make_request_fn s D = Some MFN_EIO" using inv by (simp add: ttc_inv_def)
      then show ?thesis using False found_iff whole by (auto simp: s')
    qed
    have mem: "x \<in> set (remove1 a (bindings_of C s D)) \<Longrightarrow>
        origmfn (heap s x) = Some (MFN_DRIVER k) \<and> dev_info (heap s x) \<noteq> EIO_DEV_WHOLE_DISK" for x
    proof -
      assume x: "x \<in> set (remove1 a (bindings_of C s D))"
      then have xin: "x \<in> set (bindings_of C s D)" and xa: "x \<noteq> a"
        using db by (auto simp: set_remove1_eq [OF db])
      have "dev_info (heap s x) = EIO_DEV_WHOLE_DISK \<Longrightarrow> bindings_of C s D = [x]"
        using inv xin by (auto simp: ttc_inv_def)
      then have "dev_info (heap s x) \<noteq> EIO_DEV_WHOLE_DISK" using ain xa by auto
      then show ?thesis using inv xin by (auto simp: ttc_inv_def)
    qed
    show ?thesis
      unfolding ttc_inv_def b m ho hi using d mem by auto
  qed
qed

lemma deactivate_inv:
  assumes inv: "ttc_inv C D k s" and linked: "a \<in> set (eio_ttc_list s (shard_of C s a))"
    and res: "eio_ttc_deactivate fuel C L s a force = Some (r, s')"
  shows "ttc_inv C D k s'"
proof -
  have fin: "ttc_inv C D k s1 \<and> a \<in> set (eio_ttc_list s1 (shard_of C s1 a))"
    if "eio_finish_nrdirty fuel C L s a = Some (r1, s1)" for r1 s1
  proof -
    note fr = eio_finish_nrdirty_frame [OF that]
    have "bindings_of C s1 D = bindings_of C s D"
      by (simp add: bindings_of_def fr)
    then show ?thesis
      using inv linked by (simp add: ttc_inv_def fr shard_of_def)
  qed
  show ?thesis
    using res inv linked fin
    by (auto simp: eio_ttc_deactivate_def split: if_splits option.splits dest: unlink_inv)
qed

lemma ops_inv:
  assumes "ttc_inv C D k s" "ops_valid fuel C L s ops" "run_ops fuel C L s ops = Some s'"
  shows "ttc_inv C D k s'"
  using assms
proof (induction ops arbitrary: s)
  case Nil
  then show ?case by simp
next
  case (Cons op ops)
  show ?case
  proof (cases op)
    case (Activate a)
    then show ?thesis using Cons by (auto intro: activate_inv)
  next
    case (Deactivate a force)
    then show ?thesis using Cons by (auto split: option.splits dest: deactivate_inv)
  qed
qed


lemmas ex_defs =
  ex_config_def ex_disk_def ex_part1_def ex_part2_def ex_ssd_def ex_cache_def ex_heap_def
  ex_state0_def ex_life_def ex_env_def ex_bio_def

text \<open>
  C3. Start from a registry in which no binding of disk \<open>D\<close> is linked and the queue of
  \<open>D\<close> has the driver's entry point. After every sequence of activations (of cache objects
  not yet linked) and deactivations (of linked ones) that returns, the queue's entry point
  is the interception function if and only if at least one binding of \<open>D\<close> is linked, it is
  the driver's entry point if and only if none is, and every linked binding of \<open>D\<close> holds
  the driver's entry point as its saved original: the first activation recorded it from
  the queue, the later ones took it over from a sibling.
\<close>

theorem entry_point_follows_bindings:
  assumes "bindings_of C s0 D = []"
    and "distinct (eio_ttc_list s0 (EIO_HASH_BDEV C D))"
    and "make_request_fn s0 D = Some (MFN_DRIVER k)"
    and "ops_valid fuel C L s0 ops"
    and "run_ops fuel C L s0 ops = Some s"
  shows "(make_request_fn s D = Some MFN_EIO \<longleftrightarrow> bindings_of C s D \<noteq> []) \<and>
         (make_request_fn s D = Some (MFN_DRIVER k) \<longleftrightarrow> bindings_of C s D = []) \<and>
         (\<forall>a \<in> set (bindings_of C s D). origmfn (heap s a) = Some (MFN_DRIVER k))"
proof -
  have "ttc_inv C D k s0"
    using assms(1-3) by (simp add: ttc_inv_def)
  then have "ttc_inv C D k s"
    using assms(4,5) by (rule ops_inv)
  then show ?thesis
    by (auto simp: ttc_inv_def)
qed

theorem entry_point_follows_bindings_witness:
  "run_ops 1 ex_config ex_life ex_state0 ex_ops \<noteq> None \<and>
   make_request_fn (the (run_ops 1 ex_config ex_life ex_state0 ex_ops)) 8 = Some MFN_EIO \<and>
   bindings_of ex_config (the (run_ops 1 ex_config ex_life ex_state0 ex_ops)) 8 = [2] \<and>
   origmfn (heap (the (run_ops 1 ex_config ex_life ex_state0 ex_ops)) 2) = Some (MFN_DRIVER 8)"
proof -
  have h1: "bindings_of ex_config ex_state0 8 = []"
    by (simp add: bindings_of_def ex_defs)
  have h2: "distinct (eio_ttc_list ex_state0 (EIO_HASH_BDEV ex_config 8))"
    by (simp add: ex_defs)
  have h3: "make_request_fn ex_state0 8 = Some (MFN_DRIVER 8)"
    by (simp add: ex_defs)
  have h4: "ops_valid 1 ex_config ex_life ex_state0 ex_ops"
    by (simp add: ex_ops_def ex_defs shard_of_def eio_ttc_activate_def Let_def EINVAL_def
        eio_ttc_deactivate_def ttc_deactivate_unlink_def found_partitions_def)
  have "run_ops 1 ex_config ex_life ex_state0 ex_ops \<noteq> None"
    by (simp add: ex_ops_def ex_defs shard_of_def eio_ttc_activate_def Let_def EINVAL_def
        eio_ttc_deactivate_def ttc_deactivate_unlink_def found_partitions_def)
  then obtain s where h5: "run_ops 1 ex_config ex_life ex_state0 ex_ops = Some s"
    by auto
  have b: "bindings_of ex_config (the (run_ops 1 ex_config ex_life ex_state0 ex_ops)) 8 = [2]"
    by (simp add: ex_ops_def ex_defs shard_of_def eio_ttc_activate_def Let_def EINVAL_def
        eio_ttc_deactivate_def ttc_deactivate_unlink_def found_partitions_def bindings_of_def)
  show ?thesis
    using entry_point_follows_bindings [OF h1 h2 h3 h4 h5] h5 b by simp
qed

subsection \<open>Conflicts at activation\<close>

text \<open>
  C4. With caches 1 (first partition) and 2 (second partition) linked in this order,
  activating cache 3 on the second partition returns 0 and links it, so that two caches
  cover the identical partition. \<open>eio_do_preliminary_checks\<close> refuses the same request
  with \<open>-EINVAL\<close>: its loop goes on after the first binding of the disk, the loop of
  \<open>eio_ttc_activate\<close> is left there.
\<close>

theorem activate_misses_identical_partition:
  "fst (eio_ttc_activate ex_config ex_state12 3) = 0 \<and>
   eio_ttc_list ex_state12 8 = [1, 2] \<and>
   eio_ttc_list (snd (eio_ttc_activate ex_config ex_state12 3)) 8 = [1, 2, 3] \<and>
   disk_bdev (heap ex_state12 3) = disk_bdev (heap ex_state12 2) \<and>
   fst (eio_do_preliminary_checks ex_config ex_state12 3) = - EINVAL"
  by (simp add: ex_state12_def ex_defs eio_ttc_activate_def Let_def
      eio_do_preliminary_checks_def eio_cache_lookup_def upt_rec EINVAL_def)

subsection \<open>The routing decision\<close>

text \<open>
  C1. With cache 1 linked on sectors 100 to 199, a write of 200 sectors at sector 50
  (sectors 50 to 249, which contain the whole range of the binding) is handed to the
  driver's entry point unsplit: the overlap test of \<open>eio_make_request_fn\<close> looks at the
  first and the last sector of the bio only, and neither lies in the binding's range.
\<close>

theorem enclosing_io_is_passed_through:
  "eio_mfn_scan (heap (snd (eio_ttc_activate ex_config ex_state0 1))) (ex_bio 50 102400) None
     (eio_ttc_list (snd (eio_ttc_activate ex_config ex_state0 1)) 8) =
     (None, Some (MFN_DRIVER 8), False) \<and>
   eio_make_request_fn 1 ex_config ex_env (snd (eio_ttc_activate ex_config ex_state0 1)) 8
     (ex_bio 50 102400) =
     Some ([Down_read 8, Up_read 8, Call_origmfn (Some (MFN_DRIVER 8)) (ex_bio 50 102400)],
           ex_bio 50 102400)"
  by (simp add: ex_defs eio_ttc_activate_def Let_def bio_last_sector_def eio_to_sector_def
      SECTOR_SHIFT_def hdd_make_request_def)

text \<open>
  What the scan computes when the bindings of the disk are partitions with pairwise
  disjoint ranges and the bio's range does not wrap: a binding is found exactly when the
  bio lies within the range of one; the bio is marked as overlapping exactly when it lies
  within none but its first or last sector lies within one.
\<close>

lemma scan_classification:
  assumes "\<forall>a \<in> set l. same_disk h b a \<longrightarrow> dev_info (h a) = EIO_DEV_PARTITION"
    and "\<forall>a \<in> set l. \<forall>c \<in> set l. same_disk h b a \<and> same_disk h b c \<and> a \<noteq> c \<longrightarrow>
           dev_end_sect (h a) < dev_start_sect (h c) \<or> dev_end_sect (h c) < dev_start_sect (h a)"
    and "bi_sector b \<le> bio_last_sector b"
  shows "(fst (eio_mfn_scan h b om l) \<noteq> None \<longleftrightarrow>
            (\<exists>a \<in> set l. same_disk h b a \<and> bio_within h b a)) \<and>
         (snd (snd (eio_mfn_scan h b om l)) \<longleftrightarrow>
            \<not> (\<exists>a \<in> set l. same_disk h b a \<and> bio_within h b a) \<and>
            (\<exists>a \<in> set l. same_disk h b a \<and> bio_end_within h b a))"
  using assms(1,2)
proof (induction l arbitrary: om)
  case Nil
  then show ?case by simp
next
  case (Cons a l)
  have IH: "(fst (eio_mfn_scan h b om' l) \<noteq> None \<longleftrightarrow>
            (\<exists>a \<in> set l. same_disk h b a \<and> bio_within h b a)) \<and>
         (snd (snd (eio_mfn_scan h b om' l)) \<longleftrightarrow>
            \<not> (\<exists>a \<in> set l. same_disk h b a \<and> bio_within h b a) \<and>
            (\<exists>a \<in> set l. same_disk h b a \<and> bio_end_within h b a))" for om'
    by (rule Cons.IH) (use Cons.prems in auto)
  let ?om1 = "if om = None then origmfn (h a) else om"
  show ?case
  proof (cases "same_disk h b a")
    case False
    then have "eio_mfn_scan h b om (a # l) = eio_mfn_scan h b om l"
      by (simp add: same_disk_def)
    then show ?thesis
      using IH [of om] False by simp
  next
    case True
    then have p: "dev_info (h a) = EIO_DEV_PARTITION" using Cons.prems(1) by simp
    show ?thesis
    proof (cases "bio_within h b a")
      case w: True
      have "eio_mfn_scan h b om (a # l) = (Some a, ?om1, False)"
        using True p w by (auto simp: same_disk_def bio_within_def Let_def)
      then show ?thesis
        using True w by auto
    next
      case nw: False
      show ?thesis
      proof (cases "bio_end_within h b a")
        case e: True
        have "eio_mfn_scan h b om (a # l) = (None, ?om1, True)"
          using True p nw e by (auto simp: same_disk_def bio_within_def bio_end_within_def Let_def)
        moreover have "\<not> bio_within h b c" if "c \<in> set l" "same_disk h b c" for c
        proof
          assume c: "bio_within h b c"
          have "c \<noteq> a" using c nw by auto
          then have "dev_end_sect (h a) < dev_start_sect (h c) \<or>
                     dev_end_sect (h c) < dev_start_sect (h a)"
            using Cons.prems(2) True that by auto
          then show False
            using c e assms(3) by (auto simp: bio_within_def bio_end_within_def)
        qed
        ultimately show ?thesis
          using True nw e by auto
      next
        case ne: False
        have "eio_mfn_scan h b om (a # l) = eio_mfn_scan h b ?om1 l"
          using True p nw ne by (auto simp: same_disk_def bio_within_def bio_end_within_def Let_def)
        then show ?thesis
          using nw ne IH [of ?om1] by auto
      qed
    qed
  qed
qed


text \<open>A bio of one sector is never marked as overlapping.\<close>

lemma single_sector_not_overlap:
  "eio_to_sector (bi_size c) = 1 \<Longrightarrow> snd (snd (eio_mfn_scan h c om l)) = False"
  by (induction l arbitrary: om) (auto simp: Let_def bio_last_sector_def)

lemma scan_passthrough_origmfn:
  assumes "eio_mfn_scan h b om0 l = (None, om, False)"
    and "\<forall>a \<in> set l. bd_contains (disk_bdev (h a)) = bd_contains (bi_bdev b) \<longrightarrow>
           origmfn (h a) = Some d"
  shows "om = (if om0 \<noteq> None then om0
               else if filter (\<lambda>a. bd_contains (disk_bdev (h a)) = bd_contains (bi_bdev b)) l = []
               then None else Some d)"
  using assms
proof (induction l arbitrary: om0)
  case Nil
  then show ?case by simp
next
  case (Cons a l)
  show ?case
  proof (cases "bd_contains (disk_bdev (h a)) = bd_contains (bi_bdev b)")
    case False
    then have r: "eio_mfn_scan h b om0 l = (None, om, False)"
      using Cons.prems(1) by simp
    have "om = (if om0 \<noteq> None then om0
               else if filter (\<lambda>a. bd_contains (disk_bdev (h a)) = bd_contains (bi_bdev b)) l = []
               then None else Some d)"
      by (rule Cons.IH [OF r]) (use Cons.prems(2) in simp)
    then show ?thesis using False by simp
  next
    case True
    then have o: "origmfn (h a) = Some d" using Cons.prems(2) by simp
    let ?om1 = "if om0 = None then origmfn (h a) else om0"
    have r: "eio_mfn_scan h b ?om1 l = (None, om, False)"
      using Cons.prems(1) True by (cases "om0 = None") (simp_all add: Let_def split: if_splits)
    have "om = (if ?om1 \<noteq> None then ?om1
               else if filter (\<lambda>a. bd_contains (disk_bdev (h a)) = bd_contains (bi_bdev b)) l = []
               then None else Some d)"
      by (rule Cons.IH [OF r]) (use Cons.prems(2) in simp)
    then show ?thesis using True o by simp
  qed
qed

lemma concat_results_Some:
  "\<forall>r \<in> set rs. r \<noteq> None \<Longrightarrow> concat_results rs \<noteq> None"
  by (induction rs rule: concat_results.induct) (auto split: option.splits)

lemma unsplit_returns:
  assumes inv: "ttc_inv C (bd_contains (bi_bdev b)) k s"
    and ns: "\<not> snd (snd (eio_mfn_scan (heap s) b None
                 (eio_ttc_list s (EIO_HASH_BDEV C (bd_contains (bi_bdev b))))))"
  shows "eio_make_request_fn (Suc n) C E s (bd_contains (bi_bdev b)) b \<noteq> None"
proof -
  let ?D = "bd_contains (bi_bdev b)"
  let ?l = "eio_ttc_list s (EIO_HASH_BDEV C ?D)"
  obtain dmc om where sc: "eio_mfn_scan (heap s) b None ?l = (dmc, om, False)"
    using ns by (cases "eio_mfn_scan (heap s) b None ?l") auto
  show ?thesis
  proof (cases dmc)
    case (Some a)
    then show ?thesis using sc by (simp add: Let_def split: prod.splits)
  next
    case None
    have mem: "\<forall>a \<in> set ?l. bd_contains (disk_bdev (heap s a)) = ?D \<longrightarrow>
                 origmfn (heap s a) = Some (MFN_DRIVER k)"
      using inv by (auto simp: ttc_inv_def bindings_of_def)
    have om: "om = (if filter (\<lambda>a. bd_contains (disk_bdev (heap s a)) = ?D) ?l = []
                    then None else Some (MFN_DRIVER k))"
      using scan_passthrough_origmfn [OF sc [unfolded None] mem] by simp
    have "(case om of None \<Rightarrow> make_request_fn s ?D | Some f \<Rightarrow> Some f) = Some (MFN_DRIVER k)"
      using inv om by (auto simp: ttc_inv_def bindings_of_def)
    then show ?thesis
      using sc None by (simp add: Let_def)
  qed
qed

text \<open>
  Under the registry invariant a call of \<open>eio_make_request_fn\<close> returns: it is entered at
  most twice in a row (for a bio and for its sub-bios), and \<open>goto re_lookup\<close> is not taken,
  since every entry point the lookup can find is the driver's.
\<close>

lemma routing_returns:
  assumes inv: "ttc_inv C (bd_contains (bi_bdev b)) k s"
  shows "eio_make_request_fn (Suc (Suc n)) C E s (bd_contains (bi_bdev b)) b \<noteq> None"
proof (cases "snd (snd (eio_mfn_scan (heap s) b None
                 (eio_ttc_list s (EIO_HASH_BDEV C (bd_contains (bi_bdev b))))))")
  case False
  then show ?thesis by (rule unsplit_returns [OF inv])
next
  case True
  let ?D = "bd_contains (bi_bdev b)"
  let ?l = "eio_ttc_list s (EIO_HASH_BDEV C ?D)"
  obtain dmc om where sc: "eio_mfn_scan (heap s) b None ?l = (dmc, om, True)"
    using True by (cases "eio_mfn_scan (heap s) b None ?l") auto
  have sub: "eio_make_request_fn (Suc n) C E s ?D c \<noteq> None"
    if "c \<in> set (split_new_bios E b bc i j snum)" for c bc i j snum
  proof -
    have f: "bi_bdev c = bi_bdev b \<and> eio_to_sector (bi_size c) = 1"
      using that
      by (induction j arbitrary: i snum)
         (auto simp: eio_split_new_bio_def eio_to_sector_def SECTOR_SHIFT_def split: if_splits)
    have "\<not> snd (snd (eio_mfn_scan (heap s) c None
                 (eio_ttc_list s (EIO_HASH_BDEV C (bd_contains (bi_bdev c))))))"
      using single_sector_not_overlap f by simp
    from unsplit_returns [OF _ this, of k n E] inv f show ?thesis by simp
  qed
  have cr: "concat_results (map (eio_make_request_fn (Suc n) C E s ?D)
              (split_new_bios E b bc 0 j (bi_sector b))) \<noteq> None" for bc j
    by (rule concat_results_Some) (use sub in auto)
  have "eio_overlap_split_bio (Suc n) C E s ?D b \<noteq> None"
  proof (cases "kmalloc_bioptr E b")
    case False
    then show ?thesis by (simp add: Let_def)
  next
    case True
    show ?thesis
    proof (cases "kmalloc_bc E b")
      case None
      then show ?thesis using True by (simp add: Let_def)
    next
      case (Some bc)
      from cr [of bc "unat (drop_bit SECTOR_SHIFT (bi_size b))"] obtain es where
        "concat_results (map (eio_make_request_fn (Suc n) C E s ?D)
           (split_new_bios E b bc 0 (unat (drop_bit SECTOR_SHIFT (bi_size b))) (bi_sector b))) =
         Some es"
        by auto
      then show ?thesis
        using True Some by (simp add: Let_def del: eio_make_request_fn.simps)
    qed
  qed
  then show ?thesis
    using sc
    by (auto simp: Let_def simp del: eio_overlap_split_bio.simps split: option.splits)
qed


subsection \<open>The completion tracker\<close>

lemma io_run_append:
  "io_run io (xs @ ys) =
     (case io_run io xs of (io1, es1) \<Rightarrow> case io_run io1 ys of (io2, es2) \<Rightarrow> (io2, es1 @ es2))"
  by (induction xs arbitrary: io) (auto split: prod.splits)

lemma outstanding_append:
  "outstanding k (xs @ ys) = (case outstanding k xs of None \<Rightarrow> None | Some j \<Rightarrow> outstanding j ys)"
  by (induction k xs rule: outstanding.induct) (auto split: nat.splits)

lemma endio_errors_append: "endio_errors (xs @ ys) = endio_errors xs @ endio_errors ys"
  by (induction xs rule: endio_errors.induct) auto

lemma endio_errors_map: "endio_errors (map Endio es) = es"
  by (induction es) auto

lemma last_error_append: "last_error e0 (xs @ ys) = last_error (last_error e0 xs) ys"
  by (induction xs arbitrary: e0) auto

lemma during_run:
  "outstanding k during = Some k' \<Longrightarrow> io_count io = 1 + int k + m \<Longrightarrow> 0 \<le> m \<Longrightarrow>
   io_run io during =
     (io\<lparr>io_count := 1 + int k' + m, io_error := last_error (io_error io) (endio_errors during)\<rparr>, [])"
proof (induction k during arbitrary: io rule: outstanding.induct)
  case (1 k)
  then show ?case by simp
next
  case (2 k xs)
  then show ?case by simp
next
  case (3 k error xs)
  then obtain j where k: "k = Suc j" by (cases k) auto
  show ?case
    using 3 k by (simp add: eio_dec_count_def Let_def)
next
  case (4 k xs)
  then show ?case by simp
qed

lemma later_run_partial:
  "io_count io = int (length l) + m \<Longrightarrow> 0 < m \<Longrightarrow>
   io_run io (map Endio l) = (io\<lparr>io_count := m, io_error := last_error (io_error io) l\<rparr>, [])"
  by (induction l arbitrary: io) (auto simp: eio_dec_count_def Let_def)

lemma later_run_full:
  "io_count io = int (length l) \<Longrightarrow> l \<noteq> [] \<Longrightarrow>
   io_run io (map Endio l) =
     (io\<lparr>io_count := 0, io_error := last_error (io_error io) l\<rparr>,
      if io_event io then [Complete_event]
      else [Mempool_free_io, Call_notify (io_callback io) (last_error (io_error io) l) (io_context io)])"
proof (induction l arbitrary: io)
  case Nil
  then show ?case by simp
next
  case (Cons e l)
  show ?case
  proof (cases "l = []")
    case True
    then show ?thesis using Cons.prems by (simp add: eio_dec_count_def Let_def)
  next
    case False
    define io1 where "io1 = (if e \<noteq> 0 then io\<lparr>io_error := e\<rparr> else io)\<lparr>io_count := int (length l)\<rparr>"
    have step: "eio_dec_count io e = (io1, [])"
      using Cons.prems False by (simp add: eio_dec_count_def Let_def io1_def)
    have "io_count io1 = int (length l)"
      by (simp add: io1_def)
    from Cons.IH [OF this False] show ?thesis
      by (simp add: step) (simp add: io1_def)
  qed
qed

lemma outstanding_issued:
  "outstanding k xs = Some k' \<Longrightarrow> k + issued xs = k' + length (endio_errors xs)"
  unfolding issued_def
  by (induction k xs arbitrary: k' rule: outstanding.induct) (auto split: nat.splits)


lemma during_run0:
  "outstanding k during = Some k' \<Longrightarrow> io_count io = 1 + int k \<Longrightarrow>
   io_run io during =
     (io\<lparr>io_count := 1 + int k', io_error := last_error (io_error io) (endio_errors during)\<rparr>, [])"
  using during_run [of k during k' io 0] by simp

lemma tail_run:
  assumes "io_count io = 1 + int (length later)"
  shows "io_run io (Drop_extra # map Endio later) =
     (io\<lparr>io_count := 0, io_error := last_error (io_error io) later\<rparr>,
      if io_event io then [Complete_event]
      else [Mempool_free_io,
            Call_notify (io_callback io) (last_error (io_error io) later) (io_context io)])"
proof (cases "later = []")
  case True
  then show ?thesis
    using assms by (simp add: eio_dec_count_def Let_def)
next
  case False
  let ?io2 = "io\<lparr>io_count := int (length later)\<rparr>"
  have drop: "eio_dec_count io 0 = (?io2, [])"
    using False assms by (simp add: eio_dec_count_def Let_def)
  have "io_count ?io2 = int (length later)" by simp
  from later_run_full [OF this False] show ?thesis
    by (simp add: drop)
qed

lemma schedule_run:
  assumes "outstanding 0 during = Some (length later)" and "io_count io = 1"
  shows "io_run io (dispatch_schedule during later) =
     (io\<lparr>io_count := 0, io_error := last_error (io_error io) (endio_errors during @ later)\<rparr>,
      if io_event io then [Complete_event]
      else [Mempool_free_io,
            Call_notify (io_callback io) (last_error (io_error io) (endio_errors during @ later))
              (io_context io)])"
proof -
  let ?io1 = "io\<lparr>io_count := 1 + int (length later),
                 io_error := last_error (io_error io) (endio_errors during)\<rparr>"
  have d: "io_run io during = (?io1, [])"
    by (rule during_run0 [OF assms(1)]) (simp add: assms(2))
  have "io_count ?io1 = 1 + int (length later)" by simp
  from tail_run [OF this] show ?thesis
    by (simp add: dispatch_schedule_def io_run_append d last_error_append)
qed

lemma schedule_prefix:
  assumes "outstanding 0 during = Some (length later)" and "io_count io = 1"
    and "dispatch_schedule during later = p @ r" and "r \<noteq> []"
  shows "snd (io_run io p) = [] \<and> 0 < io_count (fst (io_run io p))"
proof -
  from assms(3) consider
    (a) d2 where "during = p @ d2" |
    (b) q where "p = during @ Drop_extra # q" "map Endio later = q @ r"
    unfolding dispatch_schedule_def
    by (auto simp: append_eq_append_conv2 append_eq_Cons_conv Cons_eq_append_conv)
  then show ?thesis
  proof cases
    case a
    then obtain j where j: "outstanding 0 p = Some j"
      using assms(1) by (auto simp: outstanding_append split: option.splits)
    have "io_run io p =
       (io\<lparr>io_count := 1 + int j, io_error := last_error (io_error io) (endio_errors p)\<rparr>, [])"
      by (rule during_run0 [OF j]) (simp add: assms(2))
    then show ?thesis by simp
  next
    case b
    then obtain l1 l2 where l: "later = l1 @ l2" "q = map Endio l1" "r = map Endio l2"
      by (auto simp: map_eq_append_conv)
    have l2: "l2 \<noteq> []" using assms(4) l by auto
    let ?e = "last_error (io_error io) (endio_errors during)"
    let ?io1 = "io\<lparr>io_count := 1 + (int (length l1) + int (length l2)), io_error := ?e\<rparr>"
    have d: "io_run io during = (?io1, [])"
      using during_run0 [OF assms(1), of io] assms(2) by (simp add: l)
    let ?io2 = "io\<lparr>io_count := int (length l1) + int (length l2), io_error := ?e\<rparr>"
    have "0 < length l2" using l2 by simp
    then have "int (length l1) + int (length l2) \<noteq> 0" by linarith
    then have drop: "eio_dec_count ?io1 0 = (?io2, [])"
      by (simp add: eio_dec_count_def Let_def)
    have "io_count ?io2 = int (length l1) + int (length l2)" by simp
    from later_run_partial [OF this] l2 show ?thesis
      by (simp add: b l(2) io_run_append d drop)
  qed
qed

text \<open>
  C2 (as the code has it). A dispatch that succeeds issues \<open>K\<close> transfers (\<open>issued during\<close>);
  completions arrive while it runs and after it has returned, every one for a transfer
  issued before, in any interleaving. Then \<open>eio_dec_count\<close> is called exactly \<open>K + 1\<close>
  times (once per transfer and once for the extra reference); the completion signal
  (\<open>complete\<close> in synchronous mode, the notify callback in asynchronous mode) is the only
  event and fires at the last of these calls, when the count reaches zero: after every
  proper prefix of the steps nothing has fired and the count is positive. The error
  reported is the last non-zero error among the completions in their order, or zero.
\<close>

theorem completion_fires_once_with_last_error:
  assumes "outstanding 0 during = Some (length later)"
  shows "length (filter (\<lambda>x. x \<noteq> Issue) (dispatch_schedule during later)) = issued during + 1 \<and>
         eio_sync_io 0 during later =
           Some (last_error 0 (endio_errors during @ later), [Complete_event]) \<and>
         eio_async_io True f ctx 0 during later =
           Some (0, [Mempool_free_io,
                     Call_notify f (last_error 0 (endio_errors during @ later)) ctx]) \<and>
         (\<forall>io p r. io_count io = 1 \<and> dispatch_schedule during later = p @ r \<and> r \<noteq> [] \<longrightarrow>
            snd (io_run io p) = [] \<and> 0 < io_count (fst (io_run io p))) \<and>
         (\<forall>io. io_count io = 1 \<longrightarrow>
            io_count (fst (io_run io (dispatch_schedule during later))) = 0)"
proof -
  have e: "length (filter (\<lambda>x. x \<noteq> Issue) xs) = length (endio_errors xs)"
    if "outstanding k xs = Some k'" for xs k k'
    using that by (induction k xs arbitrary: k' rule: outstanding.induct) (auto split: nat.splits)
  have c1: "length (filter (\<lambda>x. x \<noteq> Issue) (dispatch_schedule during later)) = issued during + 1"
    using outstanding_issued [OF assms] e [OF assms]
    by (simp add: dispatch_schedule_def filter_map comp_def)
  let ?s = "\<lparr>io_count = 1, io_error = 0, io_event = True, io_callback = 0, io_context = 0\<rparr>"
  let ?a = "\<lparr>io_count = 1, io_error = 0, io_event = False, io_callback = f, io_context = ctx\<rparr>"
  let ?s1 = "?s\<lparr>io_count := 1 + int (length later),
                 io_error := last_error (io_error ?s) (endio_errors during)\<rparr>"
  let ?a1 = "?a\<lparr>io_count := 1 + int (length later),
                 io_error := last_error (io_error ?a) (endio_errors during)\<rparr>"
  have ds: "io_run ?s during = (?s1, [])"
    by (rule during_run0 [OF assms]) simp
  have da: "io_run ?a during = (?a1, [])"
    by (rule during_run0 [OF assms]) simp
  have ts: "io_run ?s1 (Drop_extra # map Endio later) =
      (?s1\<lparr>io_count := 0, io_error := last_error (io_error ?s1) later\<rparr>, [Complete_event])"
    by (subst tail_run) simp_all
  have ta: "io_run ?a1 (Drop_extra # map Endio later) =
      (?a1\<lparr>io_count := 0, io_error := last_error (io_error ?a1) later\<rparr>,
       [Mempool_free_io, Call_notify f (last_error (io_error ?a1) later) ctx])"
    by (subst tail_run) simp_all
  have le: "(if last_error 0 xs \<noteq> 0 then last_error 0 xs else 0) = last_error 0 xs" for xs
    by simp
  have c2: "eio_sync_io 0 during later =
           Some (last_error 0 (endio_errors during @ later), [Complete_event])"
    unfolding eio_sync_io_def Let_def ds prod.case ts
    by (simp add: last_error_append)
  have c3: "eio_async_io True f ctx 0 during later =
           Some (0, [Mempool_free_io,
                     Call_notify f (last_error 0 (endio_errors during @ later)) ctx])"
    unfolding eio_async_io_def Let_def da prod.case ta
    by (simp add: last_error_append)
  show ?thesis
    using c1 c2 c3 schedule_prefix [OF assms] schedule_run [OF assms] by auto
qed

theorem completion_fires_once_with_last_error_witness:
  "eio_sync_io 0 [Issue, Issue, Endio 0, Issue] [- 5, 0] = Some (- 5, [Complete_event]) \<and>
   eio_async_io True 7 9 0 [Issue, Issue, Endio 0, Issue] [- 5, 0] =
     Some (0, [Mempool_free_io, Call_notify 7 (- 5) 9])"
proof -
  have h: "outstanding 0 [Issue, Issue, Endio 0, Issue] = Some (length [- 5, 0 :: int])"
    by simp
  show ?thesis
    using completion_fires_once_with_last_error [OF h, of 7 9] by simp
qed

text \<open>
  C2 as stated fails: two transfers complete with the errors -5 and -12 in this order.
  The first error observed is -5; both modes report -12.
\<close>

theorem last_error_not_first_error:
  "outstanding 0 [Issue, Issue] = Some (length [- 5, - 12 :: int]) \<and>
   eio_sync_io 0 [Issue, Issue] [- 5, - 12] = Some (- 12, [Complete_event]) \<and>
   eio_async_io True 7 9 0 [Issue, Issue] [- 5, - 12] =
     Some (0, [Mempool_free_io, Call_notify 7 (- 12) 9]) \<and>
   first_error (endio_errors [Issue, Issue] @ [- 5, - 12]) = - 5"
  by (simp add: eio_sync_io_def eio_async_io_def eio_dec_count_def Let_def)


subsection \<open>Discards on an overlap, and the rebased start sector\<close>

lemmas eval_defs =
  eio_ttc_activate_def Let_def bio_last_sector_def eio_to_sector_def SECTOR_SHIFT_def
  EINVAL_def hdd_make_request_def

text \<open>
  C6. A discard that the scan classifies as overlapping is completed at once with
  \<open>-EOPNOTSUPP\<close>: besides taking and releasing the read lock this is the only event, so no
  container and no sub-bio is created and nothing is submitted.
\<close>

theorem discard_on_overlap_is_refused:
  assumes "eio_mfn_scan (heap s) b None
             (eio_ttc_list s (EIO_HASH_BDEV C (bd_contains (bi_bdev b)))) = (dmc, om, True)"
    and "bi_op b = REQ_OP_DISCARD"
  shows "eio_make_request_fn (Suc n) C E s q b =
           Some ([Down_read (EIO_HASH_BDEV C (bd_contains (bi_bdev b))),
                  Up_read (EIO_HASH_BDEV C (bd_contains (bi_bdev b))),
                  Bio_endio b (- EOPNOTSUPP)], b)"
  using assms by (simp add: Let_def)

theorem discard_on_overlap_is_refused_witness:
  "eio_make_request_fn 1 ex_config ex_env ex_state12 8 (ex_overlap_bio\<lparr>bi_op := REQ_OP_DISCARD\<rparr>) =
     Some ([Down_read 8, Up_read 8,
            Bio_endio (ex_overlap_bio\<lparr>bi_op := REQ_OP_DISCARD\<rparr>) (- EOPNOTSUPP)],
           ex_overlap_bio\<lparr>bi_op := REQ_OP_DISCARD\<rparr>)"
proof -
  have h1: "eio_mfn_scan (heap ex_state12) (ex_overlap_bio\<lparr>bi_op := REQ_OP_DISCARD\<rparr>) None
      (eio_ttc_list ex_state12
        (EIO_HASH_BDEV ex_config (bd_contains (bi_bdev (ex_overlap_bio\<lparr>bi_op := REQ_OP_DISCARD\<rparr>))))) =
      (None, Some (MFN_DRIVER 8), True)"
    by (simp add: ex_state12_def ex_overlap_bio_def ex_defs eval_defs)
  have h2: "bi_op (ex_overlap_bio\<lparr>bi_op := REQ_OP_DISCARD\<rparr>) = REQ_OP_DISCARD"
    by simp
  show ?thesis
    using discard_on_overlap_is_refused [OF h1 h2, of 0 ex_env 8]
    by (simp add: ex_overlap_bio_def ex_defs)
qed

text \<open>
  C10. A bio with a non-zero start sector that the scan assigns to the binding at \<open>a\<close> is
  handed to \<open>eio_map\<close> with its start sector lowered by the binding's \<open>dev_start_sect\<close>.
  When \<open>eio_map\<close> returns an error and has left the start sector as it got it, the bio the
  caller finds afterwards has its original start sector and is otherwise as \<open>eio_map\<close> left
  it; when \<open>eio_map\<close> has not touched the bio at all, it is the original bio.
\<close>

theorem rebase_and_restore:
  assumes "eio_mfn_scan (heap s) b None
             (eio_ttc_list s (EIO_HASH_BDEV C (bd_contains (bi_bdev b)))) = (Some a, om, False)"
    and "bi_sector b \<noteq> 0"
    and "eio_map E (heap s a) (b\<lparr>bi_sector := bi_sector b - dev_start_sect (heap s a)\<rparr>) = (ret, b2)"
  shows "\<exists>b'. eio_make_request_fn (Suc n) C E s q b =
           Some ([Down_read (EIO_HASH_BDEV C (bd_contains (bi_bdev b))),
                  Call_eio_map a (b\<lparr>bi_sector := bi_sector b - dev_start_sect (heap s a)\<rparr>),
                  Up_read (EIO_HASH_BDEV C (bd_contains (bi_bdev b)))], b') \<and>
           (ret \<noteq> 0 \<and> bi_sector b2 = bi_sector b - dev_start_sect (heap s a) \<longrightarrow>
              b' = b2\<lparr>bi_sector := bi_sector b\<rparr>) \<and>
           (ret \<noteq> 0 \<and> b2 = b\<lparr>bi_sector := bi_sector b - dev_start_sect (heap s a)\<rparr> \<longrightarrow> b' = b) \<and>
           (ret = 0 \<longrightarrow> b' = b2)"
  using assms by (auto simp: Let_def)

theorem rebase_and_restore_witness:
  "eio_make_request_fn 1 ex_config ex_env_fail ex_state12 8 (ex_bio 120 5120) =
     Some ([Down_read 8, Call_eio_map 1 (ex_bio 20 5120), Up_read 8], ex_bio 120 5120)"
proof -
  have h1: "eio_mfn_scan (heap ex_state12) (ex_bio 120 5120) None
      (eio_ttc_list ex_state12 (EIO_HASH_BDEV ex_config (bd_contains (bi_bdev (ex_bio 120 5120))))) =
      (Some 1, Some (MFN_DRIVER 8), False)"
    by (simp add: ex_state12_def ex_defs eval_defs)
  have h2: "bi_sector (ex_bio 120 5120) \<noteq> 0"
    by (simp add: ex_defs)
  have h3: "eio_map ex_env_fail (heap ex_state12 1)
      ((ex_bio 120 5120)\<lparr>bi_sector := bi_sector (ex_bio 120 5120) - dev_start_sect (heap ex_state12 1)\<rparr>) =
      (- EIO, ex_bio 20 5120)"
    by (simp add: ex_env_fail_def ex_state12_def ex_defs eval_defs)
  have h4: "(ex_bio 120 5120)\<lparr>bi_sector := bi_sector (ex_bio 120 5120) - dev_start_sect (heap ex_state12 1)\<rparr> =
      ex_bio 20 5120"
    by (simp add: ex_state12_def ex_defs eval_defs)
  have idx: "EIO_HASH_BDEV ex_config (bd_contains (bi_bdev (ex_bio 120 5120))) = 8"
    by (simp add: ex_defs)
  from rebase_and_restore [OF h1 h2 h3, where n = 0 and q = 8]
  obtain b' where
    r: "eio_make_request_fn 1 ex_config ex_env_fail ex_state12 8 (ex_bio 120 5120) =
          Some ([Down_read 8, Call_eio_map 1 (ex_bio 20 5120), Up_read 8], b')" and
    e: "- EIO \<noteq> 0 \<and> ex_bio 20 5120 = ex_bio 20 5120 \<longrightarrow> b' = ex_bio 120 5120"
    unfolding h4 idx by (auto simp del: eio_make_request_fn.simps)
  have "b' = ex_bio 120 5120"
    using e by (simp add: EIO_def)
  then show ?thesis
    using r by simp
qed

subsection \<open>The overlap splitter\<close>

lemma split_new_bios_all:
  "(\<forall>j < k. bio_alloc E b (i + j)) \<Longrightarrow>
   split_new_bios E b bc i k snum =
     map (\<lambda>j. eio_split_new_bio b bc (snum + of_nat j)) [0..<k]"
proof (induction k arbitrary: i snum)
  case 0
  then show ?case by simp
next
  case (Suc k)
  have a0: "bio_alloc E b i" using Suc.prems by (metis add.right_neutral zero_less_Suc)
  have "\<forall>j<k. bio_alloc E b (Suc i + j)"
    using Suc.prems by (metis Suc_less_eq add_Suc_shift)
  from Suc.IH [OF this, of "snum + 1"]
  have "split_new_bios E b bc (Suc i) k (snum + 1) =
        map (\<lambda>j. eio_split_new_bio b bc (snum + of_nat (Suc j))) [0..<k]"
    by (simp add: ac_simps)
  then show ?case
    using a0 by (simp add: upt_rec [of 0 "Suc k"] map_Suc_upt [symmetric] del: upt_Suc)
qed

lemma split_endio_run_partial:
  "bc_holdcount bc = int (length xs) + m \<Longrightarrow> 0 < m \<Longrightarrow>
   split_endio_run a bc xs =
     (bc\<lparr>bc_holdcount := m, bc_error := last_error (bc_error bc) (map snd xs)\<rparr>,
      map (\<lambda>x. Bio_put (fst x)) xs)"
  by (induction xs arbitrary: bc) (auto simp: eio_split_endio_def Let_def)

lemma split_endio_run_full:
  "bc_holdcount bc = int (length xs) \<Longrightarrow> xs \<noteq> [] \<Longrightarrow>
   split_endio_run a bc xs =
     (bc\<lparr>bc_holdcount := 0, bc_error := last_error (bc_error bc) (map snd xs)\<rparr>,
      map (\<lambda>x. Bio_put (fst x)) xs @
      [Bio_endio (bc_bio bc) (last_error (bc_error bc) (map snd xs)), Kfree_bio_container a])"
proof (induction xs arbitrary: bc)
  case Nil
  then show ?case by simp
next
  case (Cons x xs)
  obtain c e where x: "x = (c, e)" by (cases x)
  show ?case
  proof (cases "xs = []")
    case True
    then show ?thesis using Cons.prems by (simp add: x eio_split_endio_def Let_def)
  next
    case False
    define bc1 where "bc1 = (if e \<noteq> 0 then bc\<lparr>bc_error := e\<rparr> else bc)\<lparr>bc_holdcount := int (length xs)\<rparr>"
    have step: "eio_split_endio a bc c e = (bc1, [Bio_put c])"
      using Cons.prems False by (simp add: eio_split_endio_def Let_def bc1_def)
    have "bc_holdcount bc1 = int (length xs)"
      by (simp add: bc1_def)
    from Cons.IH [OF this False] show ?thesis
      by (simp add: x step) (simp add: bc1_def)
  qed
qed

lemma sub_bio_fields:
  assumes "c \<in> set (split_sub_bios b bc)"
  shows "eio_to_sector (bi_size c) = 1" "bi_private c = Some bc"
    "bi_end_io c = END_eio_split_endio" "bi_bdev c = bi_bdev b" "bi_op c = bi_op b"
  using assms
  by (auto simp: split_sub_bios_def eio_split_new_bio_def eio_to_sector_def SECTOR_SHIFT_def)

text \<open>
  C5 (as the code has it). A bio that is not a discard is classified as overlapping; its
  byte count makes \<open>N \<ge> 1\<close> whole sectors and every allocation of the splitter succeeds.
  Then the splitter creates one container with hold count \<open>N\<close> and error 0 for the bio
  and \<open>N\<close> sub-bios, the \<open>i\<close>-th for the single sector \<open>bi_sector + i\<close>, all pointing to
  the container and completed by \<open>eio_split_endio\<close>; each sub-bio goes through
  \<open>eio_make_request_fn\<close> again (and is never classified as overlapping there). When the
  \<open>N\<close> sub-bios complete, in any order and with any errors, the original bio is completed
  exactly once, by the last completion, with the last non-zero error among them in the
  order of completion (zero if none); before the last completion it is not completed.
\<close>

theorem overlap_split_completes_once:
  assumes "eio_mfn_scan (heap s) b None
             (eio_ttc_list s (EIO_HASH_BDEV C (bd_contains (bi_bdev b)))) = (dmc, om, True)"
    and "bi_op b \<noteq> REQ_OP_DISCARD"
    and "kmalloc_bioptr E b" and "kmalloc_bc E b = Some bc"
    and "\<forall>i < unat (drop_bit SECTOR_SHIFT (bi_size b)). bio_alloc E b i"
    and "length comps = unat (drop_bit SECTOR_SHIFT (bi_size b))" and "comps \<noteq> []"
  shows
    "eio_make_request_fn (Suc n) C E s q b =
       (case concat_results (map (eio_make_request_fn n C E s q) (split_sub_bios b bc)) of
          None \<Rightarrow> None
        | Some es \<Rightarrow>
            Some ([Down_read (EIO_HASH_BDEV C (bd_contains (bi_bdev b))),
                   Up_read (EIO_HASH_BDEV C (bd_contains (bi_bdev b))),
                   Kmalloc_bio_container bc
                     \<lparr>bc_bio = b, bc_holdcount = int (length comps), bc_error = 0\<rparr>] @ es, b)) \<and>
     length (split_sub_bios b bc) = length comps \<and>
     (\<forall>i < length comps.
        bi_sector (split_sub_bios b bc ! i) = bi_sector b + of_nat i \<and>
        eio_to_sector (bi_size (split_sub_bios b bc ! i)) = 1 \<and>
        bi_private (split_sub_bios b bc ! i) = Some bc \<and>
        bi_end_io (split_sub_bios b bc ! i) = END_eio_split_endio \<and>
        \<not> snd (snd (eio_mfn_scan (heap s) (split_sub_bios b bc ! i) None
                       (eio_ttc_list s (EIO_HASH_BDEV C (bd_contains (bi_bdev b))))))) \<and>
     split_endio_run bc \<lparr>bc_bio = b, bc_holdcount = int (length comps), bc_error = 0\<rparr> comps =
       (\<lparr>bc_bio = b, bc_holdcount = 0, bc_error = last_error 0 (map snd comps)\<rparr>,
        map (\<lambda>x. Bio_put (fst x)) comps @
        [Bio_endio b (last_error 0 (map snd comps)), Kfree_bio_container bc]) \<and>
     (\<forall>p r. comps = p @ r \<and> r \<noteq> [] \<longrightarrow>
        snd (split_endio_run bc \<lparr>bc_bio = b, bc_holdcount = int (length comps), bc_error = 0\<rparr> p) =
          map (\<lambda>x. Bio_put (fst x)) p)"
proof -
  let ?N = "unat (drop_bit SECTOR_SHIFT (bi_size b))"
  let ?bc0 = "\<lparr>bc_bio = b, bc_holdcount = int (length comps), bc_error = 0\<rparr>"
  have subs: "split_new_bios E b bc 0 ?N (bi_sector b) = split_sub_bios b bc"
    unfolding split_sub_bios_def by (rule split_new_bios_all) (use assms(5) in simp)
  have len: "length (split_sub_bios b bc) = length comps"
    by (simp add: split_sub_bios_def assms(6))
  have c1: "eio_make_request_fn (Suc n) C E s q b =
       (case concat_results (map (eio_make_request_fn n C E s q) (split_sub_bios b bc)) of
          None \<Rightarrow> None
        | Some es \<Rightarrow>
            Some ([Down_read (EIO_HASH_BDEV C (bd_contains (bi_bdev b))),
                   Up_read (EIO_HASH_BDEV C (bd_contains (bi_bdev b))),
                   Kmalloc_bio_container bc ?bc0] @ es, b))"
    using assms(1-4) len
    by (simp add: Let_def subs assms(6) split: option.splits)
  have c3: "bi_sector (split_sub_bios b bc ! i) = bi_sector b + of_nat i \<and>
        eio_to_sector (bi_size (split_sub_bios b bc ! i)) = 1 \<and>
        bi_private (split_sub_bios b bc ! i) = Some bc \<and>
        bi_end_io (split_sub_bios b bc ! i) = END_eio_split_endio \<and>
        \<not> snd (snd (eio_mfn_scan (heap s) (split_sub_bios b bc ! i) None
                       (eio_ttc_list s (EIO_HASH_BDEV C (bd_contains (bi_bdev b))))))"
    if "i < length comps" for i
  proof -
    have m: "split_sub_bios b bc ! i \<in> set (split_sub_bios b bc)"
      using that len by simp
    have "bi_sector (split_sub_bios b bc ! i) = bi_sector b + of_nat i"
      using that by (simp add: split_sub_bios_def assms(6) eio_split_new_bio_def)
    then show ?thesis
      using sub_bio_fields [OF m] single_sector_not_overlap [OF sub_bio_fields(1) [OF m]]
      by simp
  qed
  have "bc_holdcount ?bc0 = int (length comps)" by simp
  from split_endio_run_full [OF this assms(7), of bc]
  have c4: "split_endio_run bc ?bc0 comps =
       (\<lparr>bc_bio = b, bc_holdcount = 0, bc_error = last_error 0 (map snd comps)\<rparr>,
        map (\<lambda>x. Bio_put (fst x)) comps @
        [Bio_endio b (last_error 0 (map snd comps)), Kfree_bio_container bc])"
    by simp
  have c5: "snd (split_endio_run bc ?bc0 p) = map (\<lambda>x. Bio_put (fst x)) p"
    if "comps = p @ r" "r \<noteq> []" for p r
  proof -
    have "0 < length r" using that(2) by simp
    then have "bc_holdcount ?bc0 = int (length p) + int (length r)" "0 < int (length r)"
      by (simp_all add: that(1))
    from split_endio_run_partial [OF this] show ?thesis by simp
  qed
  show ?thesis
    using c1 len c3 c4 c5 by blast
qed


theorem overlap_split_completes_once_witness:
  "length (split_sub_bios ex_overlap_bio 500) = 3 \<and>
   split_endio_run 500 \<lparr>bc_bio = ex_overlap_bio, bc_holdcount = 3, bc_error = 0\<rparr>
     (ex_comps [0, - 5, 0]) =
     (\<lparr>bc_bio = ex_overlap_bio, bc_holdcount = 0, bc_error = - 5\<rparr>,
      map (\<lambda>x. Bio_put (fst x)) (ex_comps [0, - 5, 0]) @
      [Bio_endio ex_overlap_bio (- 5), Kfree_bio_container 500])"
proof -
  have n: "unat (drop_bit SECTOR_SHIFT (bi_size ex_overlap_bio)) = 3"
    by (simp add: ex_overlap_bio_def ex_defs SECTOR_SHIFT_def)
  have h1: "eio_mfn_scan (heap ex_state12) ex_overlap_bio None
      (eio_ttc_list ex_state12 (EIO_HASH_BDEV ex_config (bd_contains (bi_bdev ex_overlap_bio)))) =
      (None, Some (MFN_DRIVER 8), True)"
    by (simp add: ex_state12_def ex_overlap_bio_def ex_defs eval_defs)
  have h2: "bi_op ex_overlap_bio \<noteq> REQ_OP_DISCARD"
    by (simp add: ex_overlap_bio_def ex_defs)
  have h3: "kmalloc_bioptr ex_env ex_overlap_bio" and h4: "kmalloc_bc ex_env ex_overlap_bio = Some 500"
    and h5: "\<forall>i < unat (drop_bit SECTOR_SHIFT (bi_size ex_overlap_bio)). bio_alloc ex_env ex_overlap_bio i"
    by (simp_all add: ex_defs)
  have h6: "length (ex_comps [0, - 5, 0]) = unat (drop_bit SECTOR_SHIFT (bi_size ex_overlap_bio))"
    by (simp add: ex_comps_def split_sub_bios_def n)
  have h7: "ex_comps [0, - 5, 0] \<noteq> []"
    using h6 n by auto
  have m: "map snd (ex_comps [0, - 5, 0]) = [0, - 5, 0]"
    by (simp add: ex_comps_def split_sub_bios_def n)
  show ?thesis
    using overlap_split_completes_once [OF h1 h2 h3 h4 h5 h6 h7, of 1 8] h6 n
    by (simp add: m)
qed

text \<open>
  C5 as stated fails: the three sub-bios of the example complete with the errors -5, -12
  and 0 in this order. The first non-zero error observed is -5; the original bio is
  completed with -12.
\<close>

theorem split_reports_last_error:
  "snd (split_endio_run 500 \<lparr>bc_bio = ex_overlap_bio, bc_holdcount = 3, bc_error = 0\<rparr>
          (ex_comps [- 5, - 12, 0])) =
     map Bio_put (split_sub_bios ex_overlap_bio 500) @
     [Bio_endio ex_overlap_bio (- 12), Kfree_bio_container 500] \<and>
   first_error (map snd (ex_comps [- 5, - 12, 0])) = - 5"
  by (simp add: ex_comps_def split_sub_bios_def ex_overlap_bio_def ex_defs SECTOR_SHIFT_def
      eio_split_endio_def Let_def upt_rec)

subsection \<open>Deactivation: drain, unlink, wait\<close>

lemma wait_nr_ios_returns:
  "nr_ios (((\<lambda>d. volatile_from d (while_asleep L d)) ^^ k) d) = 0 \<Longrightarrow> k < fuel \<Longrightarrow>
   wait_nr_ios fuel L d \<noteq> None"
proof (induction fuel arbitrary: d k)
  case 0
  then show ?case by simp
next
  case (Suc fuel)
  show ?case
  proof (cases "nr_ios d = 0")
    case True
    then show ?thesis by simp
  next
    case False
    then obtain j where k: "k = Suc j" using Suc.prems(1) by (cases k) auto
    have "nr_ios (((\<lambda>d. volatile_from d (while_asleep L d)) ^^ j) (volatile_from d (while_asleep L d))) = 0"
      using Suc.prems(1) unfolding k funpow_Suc_right o_apply .
    from Suc.IH [OF this] Suc.prems(2) k False show ?thesis
      by (auto split: option.splits)
  qed
qed

lemma unlink_result:
  assumes "ttc_deactivate_unlink fuel C L s a r = Some (ret, s')"
  shows "ret = r" 
    "eio_ttc_list s' = (eio_ttc_list s)(shard_of C s a := remove1 a (eio_ttc_list s (shard_of C s a)))"
    "nr_ios (heap s' a) = 0"
    "\<exists>n. trace s' = trace s @ [Down_write (shard_of C s a), Up_write (shard_of C s a)] @
                       replicate n Schedule_timeout"
    "nr_dirty (heap s a) = nr_dirty (heap s' a) \<or> nr_ios (heap s a) \<noteq> 0"
  using assms
  by (auto simp: ttc_deactivate_unlink_def Let_def shard_of_def split: option.splits
      dest: wait_nr_ios_fields elim: wait_nr_ios.elims)

lemma finish_nrdirty_loop_exit:
  "finish_nrdirty_loop n C L d = Some (r, d', k) \<Longrightarrow>
   (r = - ENODEV \<and> CACHE_FAILED_IS_SET C d') \<or>
   (r = 0 \<and> (fast_remove d' \<noteq> 0 \<or> nr_dirty d' \<le> 0 \<or>
              cache_flags d' AND CACHE_FLAGS_SHUTDOWN_INPROG C \<noteq> 0))"
  by (induction n arbitrary: d d' k r) (auto split: if_splits option.splits simp: Let_def)

lemma finish_nrdirty_zero:
  assumes "eio_finish_nrdirty fuel C L s a = Some (0, s1)"
  shows "nr_dirty (heap s1 a) \<le> 0 \<or> fast_remove (heap s1 a) \<noteq> 0"
  using assms
  by (auto simp: eio_finish_nrdirty_def Let_def ENODEV_def EINVAL_def
      split: option.splits prod.splits if_splits dest!: finish_nrdirty_loop_exit)

text \<open>
  C7 (as the code has it). Without force, on a write-back binding whose FAILED flag is
  clear, \<open>eio_ttc_deactivate\<close> runs the drain \<open>eio_finish_nrdirty\<close> first: when the drain
  returns an error, that error is returned and the shard lists and entry points are as
  before; when the call returns 0, the drain has returned 0 before the binding was
  unlinked, and then the dirty count was zero unless \<open>fast_remove\<close> was set. With force,
  or when the FAILED flag is set, or in another mode, the call goes straight to the
  unlinking, whatever the dirty count: it returns 0 and its events are the write lock and
  the sleeps of the final wait, no drain. Whenever the call returns 0 the binding has been
  unlinked from its shard list and the in-flight counter was read as zero after that.
  With force the call does return when the counter reaches zero within the bound.
\<close>

theorem deactivate_drains_unlinks_waits:
  "(\<not> force \<and> mode (heap s a) = CACHE_MODE_WB C \<and> \<not> CACHE_FAILED_IS_SET C (heap s a) \<longrightarrow>
      (\<forall>ret s1. eio_finish_nrdirty fuel C L s a = Some (ret, s1) \<and> ret \<noteq> 0 \<longrightarrow>
         eio_ttc_deactivate fuel C L s a force = Some (ret, s1) \<and>
         eio_ttc_list s1 = eio_ttc_list s \<and> make_request_fn s1 = make_request_fn s) \<and>
      (\<forall>s'. eio_ttc_deactivate fuel C L s a force = Some (0, s') \<longrightarrow>
         (\<exists>s1 n. eio_finish_nrdirty fuel C L s a = Some (0, s1) \<and>
                 (nr_dirty (heap s1 a) \<le> 0 \<or> fast_remove (heap s1 a) \<noteq> 0) \<and>
                 trace s' = trace s1 @ [Down_write (shard_of C s a), Up_write (shard_of C s a)] @
                            replicate n Schedule_timeout))) \<and>
   (force \<or> mode (heap s a) \<noteq> CACHE_MODE_WB C \<or> CACHE_FAILED_IS_SET C (heap s a) \<longrightarrow>
      (\<forall>ret s'. eio_ttc_deactivate fuel C L s a force = Some (ret, s') \<longrightarrow>
         ret = 0 \<and>
         (\<exists>n. trace s' = trace s @ [Down_write (shard_of C s a), Up_write (shard_of C s a)] @
                         replicate n Schedule_timeout))) \<and>
   (\<forall>s'. eio_ttc_deactivate fuel C L s a force = Some (0, s') \<longrightarrow>
      eio_ttc_list s' =
        (eio_ttc_list s)(shard_of C s a := remove1 a (eio_ttc_list s (shard_of C s a))) \<and>
      nr_ios (heap s' a) = 0) \<and>
   (force \<and> (\<exists>k < fuel. nr_ios (((\<lambda>d. volatile_from d (while_asleep L d)) ^^ k) (heap s a)) = 0) \<longrightarrow>
      eio_ttc_deactivate fuel C L s a force \<noteq> None)"
proof -
  have direct: "eio_ttc_deactivate fuel C L s a force = ttc_deactivate_unlink fuel C L s a 0"
    if "force \<or> mode (heap s a) \<noteq> CACHE_MODE_WB C \<or> CACHE_FAILED_IS_SET C (heap s a)"
    using that by (auto simp: eio_ttc_deactivate_def)
  have drained: "eio_ttc_deactivate fuel C L s a force =
      (case eio_finish_nrdirty fuel C L s a of
         None \<Rightarrow> None
       | Some (ret, s1) \<Rightarrow> if ret \<noteq> 0 then Some (ret, s1) else ttc_deactivate_unlink fuel C L s1 a ret)"
    if "\<not> force \<and> mode (heap s a) = CACHE_MODE_WB C \<and> \<not> CACHE_FAILED_IS_SET C (heap s a)"
    using that by (simp add: eio_ttc_deactivate_def)
  have sh: "shard_of C s1 a = shard_of C s a"
    if "eio_finish_nrdirty fuel C L s a = Some (r, s1)" for r s1
    by (simp add: shard_of_def eio_finish_nrdirty_frame [OF that])
  have c1: "eio_ttc_deactivate fuel C L s a force = Some (ret, s1) \<and>
         eio_ttc_list s1 = eio_ttc_list s \<and> make_request_fn s1 = make_request_fn s"
    if "\<not> force \<and> mode (heap s a) = CACHE_MODE_WB C \<and> \<not> CACHE_FAILED_IS_SET C (heap s a)"
      "eio_finish_nrdirty fuel C L s a = Some (ret, s1)" "ret \<noteq> 0" for ret s1
    using that(2,3) drained [OF that(1)] by (simp add: eio_finish_nrdirty_frame [OF that(2)])
  have c2: "\<exists>s1 n. eio_finish_nrdirty fuel C L s a = Some (0, s1) \<and>
                 (nr_dirty (heap s1 a) \<le> 0 \<or> fast_remove (heap s1 a) \<noteq> 0) \<and>
                 trace s' = trace s1 @ [Down_write (shard_of C s a), Up_write (shard_of C s a)] @
                            replicate n Schedule_timeout"
    if h: "\<not> force \<and> mode (heap s a) = CACHE_MODE_WB C \<and> \<not> CACHE_FAILED_IS_SET C (heap s a)"
      "eio_ttc_deactivate fuel C L s a force = Some (0, s')" for s'
  proof -
    from h(2) obtain s1 where f: "eio_finish_nrdirty fuel C L s a = Some (0, s1)"
      and u: "ttc_deactivate_unlink fuel C L s1 a 0 = Some (0, s')"
      unfolding drained [OF h(1)] by (auto split: option.splits if_splits)
    show ?thesis
      using f finish_nrdirty_zero [OF f] unlink_result(4) [OF u] sh [OF f] by auto
  qed
  have c3: "ret = 0 \<and>
         (\<exists>n. trace s' = trace s @ [Down_write (shard_of C s a), Up_write (shard_of C s a)] @
                         replicate n Schedule_timeout)"
    if "force \<or> mode (heap s a) \<noteq> CACHE_MODE_WB C \<or> CACHE_FAILED_IS_SET C (heap s a)"
      "eio_ttc_deactivate fuel C L s a force = Some (ret, s')" for ret s'
    using that(2) unlink_result(1,4) [of fuel C L s a 0 ret s'] direct [OF that(1)] by simp
  have c4: "eio_ttc_list s' =
        (eio_ttc_list s)(shard_of C s a := remove1 a (eio_ttc_list s (shard_of C s a))) \<and>
      nr_ios (heap s' a) = 0"
    if r: "eio_ttc_deactivate fuel C L s a force = Some (0, s')" for s'
  proof (cases "force \<or> mode (heap s a) \<noteq> CACHE_MODE_WB C \<or> CACHE_FAILED_IS_SET C (heap s a)")
    case True
    then show ?thesis
      using r unlink_result(2,3) [of fuel C L s a 0 0 s'] direct [OF True] by simp
  next
    case False
    then have h: "\<not> force \<and> mode (heap s a) = CACHE_MODE_WB C \<and> \<not> CACHE_FAILED_IS_SET C (heap s a)"
      by simp
    from r obtain s1 where f: "eio_finish_nrdirty fuel C L s a = Some (0, s1)"
      and u: "ttc_deactivate_unlink fuel C L s1 a 0 = Some (0, s')"
      unfolding drained [OF h] by (auto split: option.splits if_splits)
    show ?thesis
      using unlink_result(2,3) [OF u] sh [OF f] eio_finish_nrdirty_frame(1) [OF f] by simp
  qed
  have c5: "eio_ttc_deactivate fuel C L s a force \<noteq> None"
    if "force" "\<exists>k < fuel. nr_ios (((\<lambda>d. volatile_from d (while_asleep L d)) ^^ k) (heap s a)) = 0"
  proof -
    from that(2) obtain k where "k < fuel"
      "nr_ios (((\<lambda>d. volatile_from d (while_asleep L d)) ^^ k) (heap s a)) = 0" by auto
    from wait_nr_ios_returns [OF this(2,1)] show ?thesis
      using direct that(1) by (auto simp: ttc_deactivate_unlink_def Let_def split: option.splits)
  qed
  show ?thesis
    using c1 c2 c3 c4 c5 by blast
qed


theorem deactivate_drains_unlinks_waits_witness:
  "map_option fst (eio_ttc_deactivate 1 ex_config ex_life_stuck (ex_state_dirty 0) 1 False) =
     Some (- EINVAL) \<and>
   map_option (\<lambda>x. eio_ttc_list (snd x) 8)
     (eio_ttc_deactivate 1 ex_config ex_life_stuck (ex_state_dirty 0) 1 False) = Some [1, 2] \<and>
   eio_ttc_deactivate 1 ex_config ex_life_stuck (ex_state_dirty 0) 1 True \<noteq> None"
proof -
  have "map_option fst (eio_finish_nrdirty 1 ex_config ex_life_stuck (ex_state_dirty 0) 1) =
          Some (- EINVAL)"
    by (simp add: eio_finish_nrdirty_def ex_state_dirty_def ex_state12_def ex_life_stuck_def
        ex_defs eval_defs volatile_from_def)
  then obtain s1 where
    f: "eio_finish_nrdirty 1 ex_config ex_life_stuck (ex_state_dirty 0) 1 = Some (- EINVAL, s1)"
    by auto
  have h1: "\<not> False \<and> mode (heap (ex_state_dirty 0) 1) = CACHE_MODE_WB ex_config \<and>
            \<not> CACHE_FAILED_IS_SET ex_config (heap (ex_state_dirty 0) 1)"
    by (simp add: ex_state_dirty_def ex_defs)
  have h2: "- EINVAL \<noteq> (0::int)"
    by (simp add: EINVAL_def)
  have l: "eio_ttc_list (ex_state_dirty 0) 8 = [1, 2]"
    by (simp add: ex_state_dirty_def ex_state12_def ex_defs eval_defs)
  have h3: "\<exists>k<1. nr_ios (((\<lambda>d. volatile_from d (while_asleep ex_life_stuck d)) ^^ k)
                              (heap (ex_state_dirty 0) 1)) = 0"
    by (simp add: ex_state_dirty_def ex_state12_def ex_defs eval_defs)
  have r1: "eio_ttc_deactivate 1 ex_config ex_life_stuck (ex_state_dirty 0) 1 False =
              Some (- EINVAL, s1) \<and>
            eio_ttc_list s1 = eio_ttc_list (ex_state_dirty 0) \<and>
            make_request_fn s1 = make_request_fn (ex_state_dirty 0)"
    using deactivate_drains_unlinks_waits
            [of False "ex_state_dirty 0" 1 ex_config 1 ex_life_stuck] h1 f h2
    by blast
  have r2: "eio_ttc_deactivate 1 ex_config ex_life_stuck (ex_state_dirty 0) 1 True \<noteq> None"
    using deactivate_drains_unlinks_waits
            [of True "ex_state_dirty 0" 1 ex_config 1 ex_life_stuck] h3
    by blast
  show ?thesis
    using r1 r2 l by simp
qed

text \<open>
  C7 as stated fails: cache 1 is in write-back mode with five dirty blocks and its FAILED
  flag is set. Deactivation without force does not drain (the cleaner is not called, the
  dirty count stays five), unlinks the binding and returns 0.
\<close>

theorem failed_cache_is_removed_undrained:
  "mode (heap (ex_state_dirty 16) 1) = CACHE_MODE_WB ex_config \<and>
   nr_dirty (heap (ex_state_dirty 16) 1) = 5 \<and>
   eio_ttc_list (ex_state_dirty 16) 8 = [1, 2] \<and>
   map_option fst (eio_ttc_deactivate 1 ex_config ex_life (ex_state_dirty 16) 1 False) = Some 0 \<and>
   map_option (\<lambda>x. eio_ttc_list (snd x) 8)
     (eio_ttc_deactivate 1 ex_config ex_life (ex_state_dirty 16) 1 False) = Some [2] \<and>
   map_option (\<lambda>x. nr_dirty (heap (snd x) 1))
     (eio_ttc_deactivate 1 ex_config ex_life (ex_state_dirty 16) 1 False) = Some 5 \<and>
   map_option (\<lambda>x. trace (snd x))
     (eio_ttc_deactivate 1 ex_config ex_life (ex_state_dirty 16) 1 False) =
     Some (trace (ex_state_dirty 16) @ [Down_write 8, Up_write 8])"
  by (simp add: eio_ttc_deactivate_def ttc_deactivate_unlink_def found_partitions_def
      ex_state_dirty_def ex_state12_def ex_defs eval_defs)

subsection \<open>Editing a cache\<close>

lemma lookup_locks_released:
  "shard_locks_held held (snd (lookup_in_shards s name is)) = held"
  by (induction "is") (auto split: option.splits prod.splits)

text \<open>
  C8 (as the code has it). An edit finds the cache object by its name, asks for a mode or
  a policy that differs from the current one, and the object's MOD\_INPROG or
  SHUTDOWN\_INPROG flag is set. Then \<open>eio_cache_edit\<close> returns \<open>-EINVAL\<close> and the state is as
  before but for the events: no cache object (mode, policy, flags) has changed. Unless
  the object is failed or degraded (then the call is refused before it looks at the two
  flags), the events after the lookup are \<open>spin_lock_irqsave\<close> and
  \<open>spin_unlock_irqrestore\<close> on the object's own lock, between which the flags are tested;
  every shard lock taken by the lookup has been released before.
\<close>

theorem edit_is_refused_while_busy:
  assumes "eio_cache_lookup C s name = (Some a, es)"
    and "\<not> (mode (heap s a) = m \<and> req_policy (heap s a) = p)"
    and "cache_flags (heap s a) AND CACHE_FLAGS_MOD_INPROG C \<noteq> 0 \<or>
         cache_flags (heap s a) AND CACHE_FLAGS_SHUTDOWN_INPROG C \<noteq> 0"
  shows "eio_cache_edit fuel C L P Ed s name m p =
           Some (- EINVAL,
                 s\<lparr>trace := trace s @ es @
                      (if CACHE_FAILED_IS_SET C (heap s a) \<or> CACHE_DEGRADED_IS_SET C (heap s a)
                       then [] else [Spin_lock_irqsave a, Spin_unlock_irqrestore a])\<rparr>) \<and>
         shard_locks_held [] es = []"
proof -
  have "shard_locks_held [] es = []"
    using assms(1) lookup_locks_released [of "[]" s name "[0..<EIO_HASHTBL_SIZE C]"]
    by (simp add: eio_cache_lookup_def)
  then show ?thesis
    using assms by (auto simp: eio_cache_edit_def Let_def log_events_def)
qed

theorem edit_is_refused_while_busy_witness:
  "map_option fst
     (eio_cache_edit 1 ex_config ex_life ex_policy_ok ex_edit (ex_state_flags 2) ''A'' 1 1) =
     Some (- EINVAL) \<and>
   map_option (\<lambda>x. heap (snd x))
     (eio_cache_edit 1 ex_config ex_life ex_policy_ok ex_edit (ex_state_flags 2) ''A'' 1 1) =
     Some (heap (ex_state_flags 2))"
proof -
  have "fst (eio_cache_lookup ex_config (ex_state_flags 2) ''A'') = Some 1"
    by (simp add: eio_cache_lookup_def ex_state_flags_def ex_state12_def ex_defs eval_defs upt_rec)
  then obtain es where h1: "eio_cache_lookup ex_config (ex_state_flags 2) ''A'' = (Some 1, es)"
    by (cases "eio_cache_lookup ex_config (ex_state_flags 2) ''A''") auto
  have h2: "\<not> (mode (heap (ex_state_flags 2) 1) = 1 \<and> req_policy (heap (ex_state_flags 2) 1) = 1)"
    by (simp add: ex_state_flags_def ex_state12_def ex_defs eval_defs)
  have h3: "cache_flags (heap (ex_state_flags 2) 1) AND CACHE_FLAGS_MOD_INPROG ex_config \<noteq> 0 \<or>
            cache_flags (heap (ex_state_flags 2) 1) AND CACHE_FLAGS_SHUTDOWN_INPROG ex_config \<noteq> 0"
    by (simp add: ex_state_flags_def ex_defs)
  show ?thesis
    using edit_is_refused_while_busy
            [OF h1 h2 h3, where fuel = 1 and L = ex_life and P = ex_policy_ok and Ed = ex_edit]
    by simp
qed

text \<open>
  C8 as stated fails: the MOD\_INPROG flag of cache ``A'' is set, and an edit asks for
  the mode and the policy the cache already has. The call returns 0, not the busy error.
\<close>

theorem edit_to_same_settings_is_not_refused:
  "cache_flags (heap (ex_state_flags 2) 1) AND CACHE_FLAGS_MOD_INPROG ex_config \<noteq> 0 \<and>
   fst (eio_cache_lookup ex_config (ex_state_flags 2) ''A'') = Some 1 \<and>
   map_option fst
     (eio_cache_edit 1 ex_config ex_life ex_policy_ok ex_edit (ex_state_flags 2) ''A'' 3 1) =
     Some 0"
  by (simp add: eio_cache_edit_def eio_cache_lookup_def ex_state_flags_def ex_state12_def
      ex_defs eval_defs upt_rec)

text \<open>
  C9. When a step of the reinitialisation fails (\<open>eio_policy_init\<close>, \<open>eio_repl_blk_init\<close>
  or \<open>eio_repl_sets_init\<close> returns non-zero), \<open>eio_policy_switch\<close> returns a non-zero
  error and leaves the cache object as it was, so the policy operations pointer is the
  previous one and the requested policy is unchanged; the policy structures that
  \<open>eio_policy_init\<close> installed, if it installed new ones, are freed. When every step
  succeeds it returns 0, and the cache object differs from before in the new policy
  operations pointer and in the requested policy, which is the one asked for.
\<close>

theorem policy_switch_commits_or_restores:
  "(fst (eio_policy_init P dmc) \<noteq> 0 \<or>
    eio_repl_blk_init P (snd (eio_policy_init P dmc)) \<noteq> 0 \<or>
    eio_repl_sets_init P (snd (eio_policy_init P dmc)) \<noteq> 0 \<longrightarrow>
      fst (eio_policy_switch P a dmc policy) \<noteq> 0 \<and>
      fst (snd (eio_policy_switch P a dmc policy)) = dmc \<and>
      snd (snd (eio_policy_switch P a dmc policy)) =
        (if snd (eio_policy_init P dmc) \<noteq> policy_ops dmc
         then [Call_eio_policy_free a (snd (eio_policy_init P dmc))] else [])) \<and>
   (fst (eio_policy_init P dmc) = 0 \<and>
    eio_repl_blk_init P (snd (eio_policy_init P dmc)) = 0 \<and>
    eio_repl_sets_init P (snd (eio_policy_init P dmc)) = 0 \<longrightarrow>
      fst (eio_policy_switch P a dmc policy) = 0 \<and>
      fst (snd (eio_policy_switch P a dmc policy)) =
        dmc\<lparr>policy_ops := snd (eio_policy_init P dmc), req_policy := policy\<rparr> \<and>
      snd (snd (eio_policy_switch P a dmc policy)) =
        [Call_eio_policy_lru_pushblks (snd (eio_policy_init P dmc))])"
  by (auto simp: eio_policy_switch_def Let_def ENOMEM_def split: prod.splits)

theorem policy_switch_commits_or_restores_witness:
  "fst (eio_policy_switch ex_policy_fail 1 (ex_heap 1) 2) \<noteq> 0 \<and>
   fst (snd (eio_policy_switch ex_policy_fail 1 (ex_heap 1) 2)) = ex_heap 1 \<and>
   snd (snd (eio_policy_switch ex_policy_fail 1 (ex_heap 1) 2)) =
     [Call_eio_policy_free 1 (Some 2)] \<and>
   fst (eio_policy_switch ex_policy_ok 1 (ex_heap 1) 2) = 0 \<and>
   req_policy (fst (snd (eio_policy_switch ex_policy_ok 1 (ex_heap 1) 2))) = 2 \<and>
   policy_ops (fst (snd (eio_policy_switch ex_policy_ok 1 (ex_heap 1) 2))) = Some 2"
  using policy_switch_commits_or_restores [of ex_policy_fail "ex_heap 1" 1 2]
        policy_switch_commits_or_restores [of ex_policy_ok "ex_heap 1" 1 2]
  by (simp add: ex_policy_fail_def ex_policy_ok_def ex_defs)

end
